theory Spec2Isabelle
  imports Main "HOL-Library.AList"
begin

section \<open>Strings\<close>

text \<open>
  A string is a list of code units. The model covers the code units below 256 (Latin-1):
  on that range \<open>trim\<close> and \<open>toLowerCase\<close> of the source language are modelled exactly,
  and their results stay in the range. The white space that \<open>trim\<close> removes is
  TAB, LF, VT, FF, CR, SPACE and NO-BREAK SPACE; the letters that \<open>toLowerCase\<close> changes
  are A-Z and the accented capitals 192-222 without the multiplication sign 215.
\<close>

definition isWhiteSpace :: "char \<Rightarrow> bool" where
  "isWhiteSpace c = ((of_char c :: nat) \<in> {9, 10, 11, 12, 13, 32, 160})"

definition toLowerCaseChar :: "char \<Rightarrow> char" where
  "toLowerCaseChar c =
     (let n = (of_char c :: nat)
      in if (65 \<le> n \<and> n \<le> 90) \<or> (192 \<le> n \<and> n \<le> 222 \<and> n \<noteq> 215)
         then char_of (n + 32) else c)"

definition toLowerCase :: "string \<Rightarrow> string" where
  "toLowerCase s = map toLowerCaseChar s"

definition trim :: "string \<Rightarrow> string" where
  "trim s = rev (dropWhile isWhiteSpace (rev (dropWhile isWhiteSpace s)))"

definition startsWith :: "string \<Rightarrow> string \<Rightarrow> bool" where
  "startsWith s p = (take (length p) s = p)"

text \<open>\<open>s.includes(sub)\<close>: \<open>sub\<close> occurs in \<open>s\<close> as a contiguous run.\<close>

fun includes_str :: "string \<Rightarrow> string \<Rightarrow> bool" where
  "includes_str [] sub = (sub = [])"
| "includes_str (c # cs) sub = (startsWith (c # cs) sub \<or> includes_str cs sub)"

text \<open>\<open>xs.join(sep)\<close>.\<close>

fun join :: "string \<Rightarrow> string list \<Rightarrow> string" where
  "join sep [] = []"
| "join sep [x] = x"
| "join sep (x # y # ys) = x @ sep @ join sep (y # ys)"

text \<open>\<open>s.replace(/\/+$/, '')\<close>: the one match of the pattern is the maximal run of
  slashes that ends the string.\<close>

definition stripTrailingSlashes :: "string \<Rightarrow> string" where
  "stripTrailingSlashes s = rev (dropWhile (\<lambda>c. c = CHR ''/'') (rev s))"

section \<open>Endpoint identifiers: \<open>normalizeClusterUrl\<close>\<close>

definition normalizeClusterUrl :: "string \<Rightarrow> string" where
  "normalizeClusterUrl url =
     (let normalized = toLowerCase (trim url);
          normalized = (if \<not> startsWith normalized ''https://'' \<and> \<not> startsWith normalized ''http://''
                        then ''https://'' @ normalized else normalized)
      in stripTrailingSlashes normalized)"

text \<open>Whether a string begins with one of the two schemes the normalization knows.\<close>

definition hasScheme :: "string \<Rightarrow> bool" where
  "hasScheme s = (startsWith s ''https://'' \<or> startsWith s ''http://'')"

section \<open>Values of the tool protocol\<close>

text \<open>
  Argument values are JSON values; a missing key reads as \<open>undefined\<close>, modelled by
  \<open>None\<close>. Numbers are integers here: no claim computes with them, and only zero is falsy.
  An arguments object is a list of key/value pairs in the order of its keys.
\<close>

datatype json = JNull | JBool bool | JNum int | JStr string | JArr "json list"
  | JObj "(string \<times> json) list"

type_synonym args = "(string \<times> json) list"

text \<open>The truthiness test that \<open>if (v)\<close> and \<open>!v\<close> apply to a value.\<close>

fun truthy :: "json option \<Rightarrow> bool" where
  "truthy None = False"
| "truthy (Some JNull) = False"
| "truthy (Some (JBool b)) = b"
| "truthy (Some (JNum n)) = (n \<noteq> 0)"
| "truthy (Some (JStr s)) = (s \<noteq> [])"
| "truthy (Some (JArr xs)) = True"
| "truthy (Some (JObj kvs)) = True"

datatype ToolContent = ToolContent (content_type: string) (content_text: "string option")
  (content_rest: "(string \<times> json) list")

record ToolCallResult =
  content :: "ToolContent list"
  isError :: "bool option"

text \<open>The result \<open>{content: [{type: 'text', text: t}], isError: true}\<close> that every error
  path of the source builds.\<close>

definition textContent :: "string \<Rightarrow> ToolContent" where
  "textContent t = ToolContent ''text'' (Some t) []"

definition errorResult :: "string \<Rightarrow> ToolCallResult" where
  "errorResult t = \<lparr>content = [textContent t], isError = Some True\<rparr>"

text \<open>A string between double quotes, as the message templates write \<open>"${x}"\<close>.\<close>

definition quoted :: "string \<Rightarrow> string" where
  "quoted s = CHR 0x22 # s @ [CHR 0x22]"

text \<open>
  A tool definition refers to its input schema, an object that lives in a store
  (section ``Input schemas in a store''); \<open>addr\<close> is the address of an object.
\<close>

type_synonym addr = nat

record ToolDefinition =
  name :: string
  description :: "string option"
  inputSchema :: addr

section \<open>The endpoint supervisor: \<open>DownstreamManager\<close>\<close>

datatype ConnectionStatus = Connected | Connecting | Failed | Disconnected

fun statusString :: "ConnectionStatus \<Rightarrow> string" where
  "statusString Connected = ''Connected''"
| "statusString Connecting = ''Connecting''"
| "statusString Failed = ''Failed''"
| "statusString Disconnected = ''Disconnected''"

record ClusterMapping =
  clusterUrl :: string
  identity :: string

record RouterConfig =
  mappings :: "ClusterMapping list"
  readOnly :: bool
  pingIntervalSeconds :: int
  pingTimeoutSeconds :: int
  maxReconnectBackoffSeconds :: int

text \<open>
  The child process behind a client is the outside world. A client is modelled by what it
  answers: a tool call resolves with a result (\<open>content\<close> and \<open>isError\<close>, each possibly
  missing) or rejects with an error message; a ping, raced against the ping timeout,
  resolves, rejects or times out.
\<close>

datatype CallOutcome = Resolved "ToolContent list option" "bool option" | Rejected string

datatype PingOutcome = PingResolved | PingRejected string | PingTimeout

record Client =
  client_ping :: PingOutcome
  client_callTool :: "string \<Rightarrow> args \<Rightarrow> CallOutcome"

text \<open>\<open>transport\<close> and \<open>process\<close> record only whether the reference is set or null.\<close>

record DownstreamState =
  mapping :: ClusterMapping
  client :: "Client option"
  transport :: bool
  process :: bool
  status :: ConnectionStatus
  lastHeartbeat :: "string option"
  consecutiveFailures :: nat
  tools :: "ToolDefinition list"
  reconnecting :: bool

text \<open>
  \<open>_downstreams\<close> is a map that iterates in insertion order: a list of pairs with distinct
  keys. \<open>get\<close> is \<open>map_of\<close>; \<open>set\<close>, and an assignment to a field of a record held in the
  map, is \<open>AList.update\<close>, which keeps the position of a key that is present and appends
  a new one.
\<close>

record DownstreamManager =
  downstreams :: "(string \<times> DownstreamState) list"
  config :: RouterConfig

definition setState :: "string \<Rightarrow> DownstreamState \<Rightarrow> DownstreamManager \<Rightarrow> DownstreamManager" where
  "setState key state mgr = mgr\<lparr>downstreams := AList.update key state (downstreams mgr)\<rparr>"

definition getClusterUrls :: "DownstreamManager \<Rightarrow> string list" where
  "getClusterUrls mgr = map fst (downstreams mgr)"

subsection \<open>\<open>callTool\<close> and \<open>callToolOnAll\<close>\<close>

text \<open>The three message templates of \<open>callTool\<close>.\<close>

definition unknownClusterText :: "string \<Rightarrow> string list \<Rightarrow> string" where
  "unknownClusterText url urls =
     ''Error: Unknown cluster '' @ quoted url @ ''. Available clusters: '' @ join '', '' urls"

definition notConnectedText :: "string \<Rightarrow> ConnectionStatus \<Rightarrow> string" where
  "notConnectedText url st =
     ''Error: Downstream for cluster '' @ quoted url @ '' is not connected (status: ''
       @ statusString st @ ''). Try again later.''"

definition callFailedText :: "string \<Rightarrow> string \<Rightarrow> string \<Rightarrow> string" where
  "callFailedText toolName url msg =
     ''Error calling tool '' @ quoted toolName @ '' on cluster '' @ quoted url @ '': '' @ msg"

text \<open>
  A function that talks to a client returns, beside its result, the calls it made on
  clients: the key of the endpoint, the tool name and the arguments sent. Writing to the
  log is not modelled.
\<close>

type_synonym Invocation = "string \<times> string \<times> args"

definition callTool ::
  "DownstreamManager \<Rightarrow> string \<Rightarrow> string \<Rightarrow> args \<Rightarrow> ToolCallResult \<times> Invocation list" where
  "callTool mgr url toolName args =
     (let key = normalizeClusterUrl url in
      case map_of (downstreams mgr) key of
        None \<Rightarrow> (errorResult (unknownClusterText url (getClusterUrls mgr)), [])
      | Some state \<Rightarrow>
          (case client state of
             None \<Rightarrow> (errorResult (notConnectedText url (status state)), [])
           | Some c \<Rightarrow>
               if status state \<noteq> Connected
               then (errorResult (notConnectedText url (status state)), [])
               else (case client_callTool c toolName args of
                       Resolved cont err \<Rightarrow>
                         (\<lparr>content = (case cont of None \<Rightarrow> [] | Some cs \<Rightarrow> cs),
                           isError = err\<rparr>,
                          [(key, toolName, args)])
                     | Rejected msg \<Rightarrow>
                         (errorResult (callFailedText toolName url msg),
                          [(key, toolName, args)]))))"

text \<open>Whether the call of a tool on a client returns \<open>isError = true\<close> or fails.\<close>

definition clientFailed :: "Client \<Rightarrow> string \<Rightarrow> args \<Rightarrow> bool" where
  "clientFailed c toolName args =
     (case client_callTool c toolName args of
        Rejected msg \<Rightarrow> True
      | Resolved cont err \<Rightarrow> err = Some True)"

text \<open>
  \<open>Promise.allSettled\<close> gives one settled result per endpoint, in the order of the
  endpoints. The loop over them is \<open>mergeResults\<close>, with \<open>mergedContent\<close> and \<open>hasError\<close>
  as its accumulator.
\<close>

datatype Settled = Fulfilled ToolCallResult | RejectedWith string

fun mergeResults :: "Settled list \<Rightarrow> ToolContent list \<times> bool \<Rightarrow> ToolContent list \<times> bool" where
  "mergeResults [] acc = acc"
| "mergeResults (Fulfilled v # rs) (mergedContent, hasError) =
     mergeResults rs (mergedContent @ content v,
                      (if isError v = Some True then True else hasError))"
| "mergeResults (RejectedWith reason # rs) (mergedContent, hasError) =
     mergeResults rs (mergedContent @ [textContent (''Error from one downstream: '' @ reason)],
                      True)"

definition connectedDownstreams :: "DownstreamManager \<Rightarrow> (string \<times> DownstreamState) list" where
  "connectedDownstreams mgr =
     filter (\<lambda>(k, state). status state = Connected \<and> client state \<noteq> None) (downstreams mgr)"

text \<open>\<open>callTool\<close> catches every rejection of the client, so each of the parallel calls is
  fulfilled.\<close>

definition callToolOnAll ::
  "DownstreamManager \<Rightarrow> string \<Rightarrow> args \<Rightarrow> ToolCallResult \<times> Invocation list" where
  "callToolOnAll mgr toolName args =
     (if length (connectedDownstreams mgr) = 0
      then (errorResult ''Error: No downstream MCP servers are currently connected.'', [])
      else
        let calls = map (\<lambda>(url, state). callTool mgr url toolName args) (connectedDownstreams mgr);
            results = map (\<lambda>c. Fulfilled (fst c)) calls;
            (mergedContent, hasError) = mergeResults results ([], False)
        in (\<lparr>content = mergedContent, isError = Some hasError\<rparr>, concat (map snd calls)))"

subsection \<open>\<open>ping\<close>\<close>

text \<open>
  \<open>now\<close> is the time stamp that \<open>new Date().toISOString()\<close> gives. The third component
  of the result lists the endpoints whose client was pinged.
\<close>

definition ping :: "string \<Rightarrow> DownstreamManager \<Rightarrow> string \<Rightarrow> DownstreamManager \<times> bool \<times> string list" where
  "ping now mgr url =
     (let key = normalizeClusterUrl url in
      case map_of (downstreams mgr) key of
        None \<Rightarrow> (mgr, False, [])
      | Some state \<Rightarrow>
          (case client state of
             None \<Rightarrow> (mgr, False, [])
           | Some c \<Rightarrow>
               if status state \<noteq> Connected then (mgr, False, [])
               else if client_ping c = PingResolved
               then (setState key (state\<lparr>lastHeartbeat := Some now, consecutiveFailures := 0\<rparr>) mgr,
                     True, [key])
               else
                 let failures = consecutiveFailures state + 1
                 in (setState key
                       (state\<lparr>consecutiveFailures := failures,
                              status := (if failures \<ge> 3 then Disconnected else Failed)\<rparr>) mgr,
                     False, [key])))"

subsection \<open>Connecting, \<open>initializeAll\<close> and \<open>reconnect\<close>\<close>

text \<open>
  Spawning the child, connecting and listing its tools either rejects with a message,
  before any field of the record is written, or yields the client, the tools and whether
  the transport exposes a process.
\<close>

datatype ConnectOutcome = ConnectRejected string | ConnectResolved Client "ToolDefinition list" bool

definition connectDownstream ::
  "ConnectOutcome \<Rightarrow> string \<Rightarrow> DownstreamState \<Rightarrow> string + DownstreamState" where
  "connectDownstream outcome now state =
     (case outcome of
        ConnectRejected msg \<Rightarrow> Inl msg
      | ConnectResolved c ts hasProcess \<Rightarrow>
          Inr (state\<lparr>client := Some c, transport := True, process := hasProcess,
                     status := Connected, lastHeartbeat := Some now,
                     consecutiveFailures := 0, tools := ts\<rparr>))"

text \<open>
  \<open>initializeAll\<close> starts one task per mapping. Each task runs, without a suspension
  point, up to its first \<open>await\<close>: all the records are inserted in the order of the
  mappings before any connection settles, and a settled connection writes only its own
  record. The loop below therefore takes the mappings one after the other; \<open>spawn\<close> gives
  the outcome of the connection attempt of each mapping.
\<close>

fun initializeAll_loop ::
  "(ClusterMapping \<Rightarrow> ConnectOutcome) \<Rightarrow> string \<Rightarrow> ClusterMapping list
   \<Rightarrow> (string \<times> DownstreamState) list \<Rightarrow> (string \<times> DownstreamState) list" where
  "initializeAll_loop spawn now [] ds = ds"
| "initializeAll_loop spawn now (m # ms) ds =
     (let key = normalizeClusterUrl (clusterUrl m) in
      if map_of ds key \<noteq> None then initializeAll_loop spawn now ms ds
      else
        let state = \<lparr>mapping = m, client = None, transport = False, process = False,
                     status = Connecting, lastHeartbeat = None, consecutiveFailures = 0,
                     tools = [], reconnecting = False\<rparr>;
            ds1 = AList.update key state ds;
            state' = (case connectDownstream (spawn m) now state of
                        Inr connected \<Rightarrow> connected
                      | Inl msg \<Rightarrow> state\<lparr>status := Failed\<rparr>)
        in initializeAll_loop spawn now ms (AList.update key state' ds1))"

definition initializeAll ::
  "(ClusterMapping \<Rightarrow> ConnectOutcome) \<Rightarrow> string \<Rightarrow> DownstreamManager \<Rightarrow> DownstreamManager" where
  "initializeAll spawn now mgr =
     mgr\<lparr>downstreams := initializeAll_loop spawn now (mappings (config mgr)) (downstreams mgr)\<rparr>"

text \<open>
  \<open>_cleanupDownstream\<close> closes the client and, when the record still holds its child
  process, sends it \<open>SIGTERM\<close> and waits for its exit. The listener that
  \<open>_connectDownstream\<close> installed on that child runs at this exit, inside the cleanup: it
  sets the status to \<open>Disconnected\<close>, clears the three references and notifies the callback
  registered with \<open>onDownstreamExit\<close>, with the key that \<open>_connectDownstream\<close> computed
  from the mapping of the record. The cleanup then clears the three references (again).
  The model returns the record together with the keys notified during the cleanup; a
  child that outlives the wait of five seconds is not modelled.
\<close>

definition cleanupDownstream :: "DownstreamState \<Rightarrow> DownstreamState \<times> string list" where
  "cleanupDownstream state =
     (if process state
      then
        (let exited = state\<lparr>status := Disconnected, client := None, transport := False,
                             process := False\<rparr>
         in (exited\<lparr>client := None, transport := False, process := False\<rparr>,
             [normalizeClusterUrl (clusterUrl (mapping state))]))
      else (state\<lparr>client := None, transport := False, process := False\<rparr>, []))"

text \<open>
  \<open>reconnect\<close> returns the supervisor, its boolean result and the keys that the cleanup
  notified to the exit callback while \<open>reconnect\<close> was running.
\<close>

definition reconnect ::
  "ConnectOutcome \<Rightarrow> string \<Rightarrow> DownstreamManager \<Rightarrow> string
   \<Rightarrow> DownstreamManager \<times> bool \<times> string list" where
  "reconnect outcome now mgr url =
     (let key = normalizeClusterUrl url in
      case map_of (downstreams mgr) key of
        None \<Rightarrow> (mgr, False, [])
      | Some state \<Rightarrow>
          if reconnecting state then (mgr, False, [])
          else
            case cleanupDownstream (state\<lparr>reconnecting := True\<rparr>) of (state1, exited) \<Rightarrow>
            (case connectDownstream outcome now state1 of
               Inr state2 \<Rightarrow> (setState key (state2\<lparr>reconnecting := False\<rparr>) mgr, True, exited)
             | Inl msg \<Rightarrow>
                 (setState key (state1\<lparr>status := Failed, reconnecting := False\<rparr>) mgr,
                  False, exited)))"

text \<open>
  The writes of the exit listener of the child process of the endpoint \<open>key\<close>, when the
  child exits on its own.
\<close>

definition processExited :: "string \<Rightarrow> DownstreamManager \<Rightarrow> DownstreamManager" where
  "processExited key mgr =
     (case map_of (downstreams mgr) key of
        None \<Rightarrow> mgr
      | Some state \<Rightarrow>
          setState key (state\<lparr>status := Disconnected, client := None, transport := False,
                              process := False\<rparr>) mgr)"

subsection \<open>Queries\<close>

definition getToolDefinitions :: "DownstreamManager \<Rightarrow> ToolDefinition list" where
  "getToolDefinitions mgr =
     (case find (\<lambda>state. status state = Connected \<and> length (tools state) > 0)
             (map snd (downstreams mgr)) of
        Some state \<Rightarrow> tools state
      | None \<Rightarrow> [])"

record DownstreamConnection =
  conn_clusterUrl :: string
  conn_identity :: string
  conn_status :: ConnectionStatus
  conn_lastHeartbeat :: "string option"
  conn_consecutiveFailures :: nat
  conn_tools :: "ToolDefinition list"

definition getConnections :: "DownstreamManager \<Rightarrow> DownstreamConnection list" where
  "getConnections mgr =
     map (\<lambda>(url, state).
            \<lparr>conn_clusterUrl = url, conn_identity = identity (mapping state),
             conn_status = status state, conn_lastHeartbeat = lastHeartbeat state,
             conn_consecutiveFailures = consecutiveFailures state, conn_tools = tools state\<rparr>)
         (downstreams mgr)"

subsection \<open>The life of the supervisor after initialization\<close>

text \<open>
  After \<open>initializeAll\<close> the endpoint map is written by pings, by reconnections and by the
  exit handlers of the child processes, in any order.
\<close>

datatype Event = PingEvent string string | ReconnectEvent ConnectOutcome string string
  | ExitEvent string

fun applyEvent :: "Event \<Rightarrow> DownstreamManager \<Rightarrow> DownstreamManager" where
  "applyEvent (PingEvent now url) mgr = fst (ping now mgr url)"
| "applyEvent (ReconnectEvent outcome now url) mgr = fst (reconnect outcome now mgr url)"
| "applyEvent (ExitEvent key) mgr = processExited key mgr"

text \<open>Whether \<open>callToolOnAll\<close> selects the endpoint stored under a key.\<close>

definition isConnected :: "DownstreamManager \<Rightarrow> string \<Rightarrow> bool" where
  "isConnected mgr url =
     (case map_of (downstreams mgr) url of
        None \<Rightarrow> False
      | Some state \<Rightarrow> status state = Connected \<and> client state \<noteq> None)"

section \<open>Input schemas in a store\<close>

text \<open>
  The schema rewriting of the tool router assigns to fields of objects, and whether the
  schema of the source tool is touched depends on which objects are shared. Schemas
  therefore live in a store: a schema object refers to its \<open>properties\<close> object and to
  its \<open>required\<close> array by address, and either reference may be missing. A property
  schema is never assigned to after it is built, so it is a value.
\<close>

record PropertySchema =
  prop_type :: "string option"
  prop_description :: "string option"
  prop_enum :: "string list option"
  prop_rest :: "(string \<times> json) list"

datatype obj =
    SchemaObj (properties_ref: "addr option") (required_ref: "addr option")
      (additional: "bool option")
  | PropertiesObj "(string \<times> PropertySchema) list"
  | ArrayObj "string list"

type_synonym store = "obj list"

definition alloc :: "store \<Rightarrow> obj \<Rightarrow> addr \<times> store" where
  "alloc h ob = (length h, h @ [ob])"

definition lookup :: "store \<Rightarrow> addr \<Rightarrow> obj option" where
  "lookup h a = (if a < length h then Some (h ! a) else None)"

text \<open>
  Reading a field through a reference. A reference of the running program always points
  to an object of the right kind; a store where it does not gives \<open>None\<close>.
\<close>

definition getProperties :: "store \<Rightarrow> addr \<Rightarrow> (string \<times> PropertySchema) list option" where
  "getProperties h a = (case lookup h a of Some (PropertiesObj ps) \<Rightarrow> Some ps | _ \<Rightarrow> None)"

definition getArray :: "store \<Rightarrow> addr \<Rightarrow> string list option" where
  "getArray h a = (case lookup h a of Some (ArrayObj xs) \<Rightarrow> Some xs | _ \<Rightarrow> None)"

text \<open>The schema at an address as a value: the interface \<open>ToolInputSchema\<close>.\<close>

record ToolInputSchema =
  properties :: "(string \<times> PropertySchema) list option"
  required :: "string list option"
  additionalProperties :: "bool option"

definition readSchema :: "store \<Rightarrow> addr \<Rightarrow> ToolInputSchema option" where
  "readSchema h a =
     (case lookup h a of
        Some (SchemaObj p r ad) \<Rightarrow>
          (case (case p of None \<Rightarrow> Some None | Some pa \<Rightarrow> map_option Some (getProperties h pa)) of
             None \<Rightarrow> None
           | Some ps \<Rightarrow>
               (case (case r of None \<Rightarrow> Some None | Some ra \<Rightarrow> map_option Some (getArray h ra)) of
                  None \<Rightarrow> None
                | Some rs \<Rightarrow> Some \<lparr>properties = ps, required = rs, additionalProperties = ad\<rparr>))
      | _ \<Rightarrow> None)"

text \<open>
  \<open>structuredClone\<close> of a schema: a new schema object that refers to a new copy of the
  properties object and to a new copy of the required array.
\<close>

definition cloneRef :: "store \<Rightarrow> addr option \<Rightarrow> (addr option \<times> store) option" where
  "cloneRef h r =
     (case r of
        None \<Rightarrow> Some (None, h)
      | Some a \<Rightarrow>
          (case lookup h a of
             Some (PropertiesObj ps) \<Rightarrow>
               (let (a', h') = alloc h (PropertiesObj ps) in Some (Some a', h'))
           | Some (ArrayObj xs) \<Rightarrow>
               (let (a', h') = alloc h (ArrayObj xs) in Some (Some a', h'))
           | _ \<Rightarrow> None))"

definition structuredClone :: "store \<Rightarrow> addr \<Rightarrow> (addr \<times> store) option" where
  "structuredClone h a =
     (case lookup h a of
        Some (SchemaObj p r ad) \<Rightarrow>
          (case cloneRef h p of
             None \<Rightarrow> None
           | Some (p', h1) \<Rightarrow>
               (case cloneRef h1 r of
                  None \<Rightarrow> None
                | Some (r', h2) \<Rightarrow> Some (alloc h2 (SchemaObj p' r' ad))))
      | _ \<Rightarrow> None)"

text \<open>\<open>if (!schema.properties) schema.properties = {}\<close>, and the same for \<open>required\<close>;
  each gives the address that the field holds afterwards.\<close>

definition ensureProperties :: "store \<Rightarrow> addr \<Rightarrow> (addr \<times> store) option" where
  "ensureProperties h schema =
     (case lookup h schema of
        Some (SchemaObj (Some p) r ad) \<Rightarrow> Some (p, h)
      | Some (SchemaObj None r ad) \<Rightarrow>
          (let (p, h') = alloc h (PropertiesObj [])
           in Some (p, h'[schema := SchemaObj (Some p) r ad]))
      | _ \<Rightarrow> None)"

definition ensureRequired :: "store \<Rightarrow> addr \<Rightarrow> (addr \<times> store) option" where
  "ensureRequired h schema =
     (case lookup h schema of
        Some (SchemaObj p (Some r) ad) \<Rightarrow> Some (r, h)
      | Some (SchemaObj p None ad) \<Rightarrow>
          (let (r, h') = alloc h (ArrayObj [])
           in Some (r, h'[schema := SchemaObj p (Some r) ad]))
      | _ \<Rightarrow> None)"

text \<open>\<open>schema.properties[key] = value\<close>.\<close>

definition setProperty :: "store \<Rightarrow> addr \<Rightarrow> string \<Rightarrow> PropertySchema \<Rightarrow> store option" where
  "setProperty h p key v =
     (case getProperties h p of
        None \<Rightarrow> None
      | Some ps \<Rightarrow> Some (h[p := PropertiesObj (AList.update key v ps)]))"

section \<open>The schema merger and the dispatch router: \<open>ToolRouter\<close>\<close>

record ToolRouter =
  mergedTools :: "ToolDefinition list"
  routableTools :: "string set"
  fanOutTools :: "string set"

subsection \<open>Rewriting the tools\<close>

definition routableClusterDescription :: "string list \<Rightarrow> string" where
  "routableClusterDescription clusterUrls =
     ''The Kusto cluster URL to query. Must be one of the available clusters: ''
       @ join '', '' clusterUrls"

definition fanOutClusterDescription :: "string list \<Rightarrow> string" where
  "fanOutClusterDescription clusterUrls =
     ''Optional: specify a Kusto cluster URL to query only that cluster. ''
       @ ''If omitted, queries all clusters. Available: '' @ join '', '' clusterUrls"

text \<open>A description is used when it is truthy: present and not the empty string.\<close>

definition enhanceRoutableTool ::
  "store \<Rightarrow> ToolDefinition \<Rightarrow> string list \<Rightarrow> (ToolDefinition \<times> store) option" where
  "enhanceRoutableTool h tool clusterUrls =
     (case structuredClone h (inputSchema tool) of
        None \<Rightarrow> None
      | Some (schema, h1) \<Rightarrow>
     (case ensureProperties h1 schema of
        None \<Rightarrow> None
      | Some (props, h2) \<Rightarrow>
     (case getProperties h2 props of
        None \<Rightarrow> None
      | Some ps \<Rightarrow>
     (let existingCluster = map_of ps ''cluster'';
          clusterProp =
            (case existingCluster of
               None \<Rightarrow> \<lparr>prop_type = None, prop_description = None, prop_enum = None,
                         prop_rest = []\<rparr>
             | Some e \<Rightarrow> e)
            \<lparr>prop_type := Some ''string'',
             prop_description := Some (routableClusterDescription clusterUrls),
             prop_enum := Some clusterUrls\<rparr>
      in
     (case setProperty h2 props ''cluster'' clusterProp of
        None \<Rightarrow> None
      | Some h3 \<Rightarrow>
     (case ensureRequired h3 schema of
        None \<Rightarrow> None
      | Some (req, h4) \<Rightarrow>
     (case getArray h4 req of
        None \<Rightarrow> None
      | Some rs \<Rightarrow>
     (let h5 = (if ''cluster'' \<notin> set rs then h4[req := ArrayObj (rs @ [''cluster''])] else h4)
      in Some (\<lparr>name = name tool,
                 description =
                   (case description tool of
                      None \<Rightarrow> Some ''Kusto tool routed to the specified cluster''
                    | Some d \<Rightarrow>
                        if d \<noteq> [] then Some (d @ '' (Routed to the specified cluster)'')
                        else Some ''Kusto tool routed to the specified cluster''),
                 inputSchema = schema\<rparr>, h5)))))))))"

definition enhanceFanOutTool ::
  "store \<Rightarrow> ToolDefinition \<Rightarrow> string list \<Rightarrow> (ToolDefinition \<times> store) option" where
  "enhanceFanOutTool h tool clusterUrls =
     (case structuredClone h (inputSchema tool) of
        None \<Rightarrow> None
      | Some (schema, h1) \<Rightarrow>
     (case ensureProperties h1 schema of
        None \<Rightarrow> None
      | Some (props, h2) \<Rightarrow>
     (case setProperty h2 props ''cluster''
             \<lparr>prop_type = Some ''string'',
              prop_description = Some (fanOutClusterDescription clusterUrls),
              prop_enum = Some clusterUrls, prop_rest = []\<rparr> of
        None \<Rightarrow> None
      | Some h3 \<Rightarrow>
          Some (\<lparr>name = name tool,
                 description =
                   (case description tool of
                      None \<Rightarrow> Some ''Lists Kusto clusters across all available connections''
                    | Some d \<Rightarrow>
                        if d \<noteq> []
                        then Some (d @ '' (Queries all available clusters unless a specific cluster is specified)'')
                        else Some ''Lists Kusto clusters across all available connections''),
                 inputSchema = schema\<rparr>, h3))))"

subsection \<open>\<open>refreshTools\<close>\<close>

text \<open>\<open>tool.inputSchema.properties?.['cluster']\<close>: a property schema is an object, so
  the test is whether the key is there.\<close>

definition hasClusterProperty :: "store \<Rightarrow> ToolDefinition \<Rightarrow> bool option" where
  "hasClusterProperty h tool =
     (case readSchema h (inputSchema tool) of
        None \<Rightarrow> None
      | Some schema \<Rightarrow>
          (case properties schema of
             None \<Rightarrow> Some False
           | Some ps \<Rightarrow> Some (map_of ps ''cluster'' \<noteq> None)))"

text \<open>The classification loop, on the two sets.\<close>

fun classify ::
  "store \<Rightarrow> ToolDefinition list \<Rightarrow> string set \<times> string set \<Rightarrow> (string set \<times> string set) option" where
  "classify h [] acc = Some acc"
| "classify h (tool # ts) (routable, fanOut) =
     (case hasClusterProperty h tool of
        None \<Rightarrow> None
      | Some True \<Rightarrow> classify h ts (insert (name tool) routable, fanOut)
      | Some False \<Rightarrow> classify h ts (routable, insert (name tool) fanOut))"

text \<open>\<open>baseTools.map(...)\<close>, the store passed from one rewriting to the next.\<close>

fun enhanceAll ::
  "store \<Rightarrow> string set \<Rightarrow> string list \<Rightarrow> ToolDefinition list
   \<Rightarrow> (ToolDefinition list \<times> store) option" where
  "enhanceAll h routable clusterUrls [] = Some ([], h)"
| "enhanceAll h routable clusterUrls (tool # ts) =
     (case (if name tool \<in> routable then enhanceRoutableTool h tool clusterUrls
            else enhanceFanOutTool h tool clusterUrls) of
        None \<Rightarrow> None
      | Some (tool', h1) \<Rightarrow>
          (case enhanceAll h1 routable clusterUrls ts of
             None \<Rightarrow> None
           | Some (ts', h2) \<Rightarrow> Some (tool' # ts', h2)))"

definition refreshTools ::
  "DownstreamManager \<Rightarrow> store \<Rightarrow> ToolRouter \<Rightarrow> (ToolRouter \<times> store) option" where
  "refreshTools mgr h router =
     (let baseTools = getToolDefinitions mgr in
      if length baseTools = 0 then Some (router\<lparr>mergedTools := []\<rparr>, h)
      else
        let clusterUrls = getClusterUrls mgr in
        case classify h baseTools ({}, {}) of
          None \<Rightarrow> None
        | Some (routable, fanOut) \<Rightarrow>
            (case enhanceAll h routable clusterUrls baseTools of
               None \<Rightarrow> None
             | Some (merged, h') \<Rightarrow>
                 Some (\<lparr>mergedTools = merged, routableTools = routable,
                        fanOutTools = fanOut\<rparr>, h')))"

subsection \<open>\<open>routeCall\<close>\<close>

text \<open>
  The router ends every path either with a result of its own or with one call of the
  supervisor, whose result it returns. \<open>routeCall\<close> gives that last step; \<open>perform\<close> runs
  it. Normalizing a \<open>cluster\<close> argument that is truthy but not a string throws a
  \<open>TypeError\<close>, since only a string has \<open>trim\<close>.
\<close>

datatype Dispatch =
    Reply ToolCallResult
  | CallTool string string args
  | CallToolOnAll string args
  | ThrowTypeError

definition clusterRequiredText :: "string \<Rightarrow> string list \<Rightarrow> string" where
  "clusterRequiredText toolName clusterUrls =
     ''Error: The '' @ quoted ''cluster'' @ '' parameter is required for tool ''
       @ quoted toolName @ ''. Available clusters: '' @ join '', '' clusterUrls"

definition notConfiguredText :: "string \<Rightarrow> string list \<Rightarrow> string" where
  "notConfiguredText cluster clusterUrls =
     ''Error: Cluster '' @ quoted cluster @ '' is not configured. Available clusters: ''
       @ join '', '' clusterUrls"

definition unknownToolText :: "string \<Rightarrow> string list \<Rightarrow> string" where
  "unknownToolText toolName toolNames =
     ''Error: Unknown tool '' @ quoted toolName @ ''. Available tools: ''
       @ join '', '' toolNames"

definition routeToCluster :: "DownstreamManager \<Rightarrow> string \<Rightarrow> args \<Rightarrow> Dispatch" where
  "routeToCluster mgr toolName args =
     (let cluster = map_of args ''cluster'' in
      if \<not> truthy cluster
      then Reply (errorResult (clusterRequiredText toolName (getClusterUrls mgr)))
      else
        case cluster of
          Some (JStr c) \<Rightarrow>
            (let normalizedCluster = normalizeClusterUrl c;
                 clusterUrls = getClusterUrls mgr
             in case find (\<lambda>url. url = normalizedCluster) clusterUrls of
                  None \<Rightarrow> Reply (errorResult (notConfiguredText c clusterUrls))
                | Some matchedCluster \<Rightarrow>
                    if matchedCluster = []
                    then Reply (errorResult (notConfiguredText c clusterUrls))
                    else CallTool matchedCluster toolName args)
        | _ \<Rightarrow> ThrowTypeError)"

definition routeFanOut :: "DownstreamManager \<Rightarrow> string \<Rightarrow> args \<Rightarrow> Dispatch" where
  "routeFanOut mgr toolName args =
     (let cluster = map_of args ''cluster'' in
      if truthy cluster
      then
        (case cluster of
           Some (JStr c) \<Rightarrow>
             (let normalizedCluster = normalizeClusterUrl c;
                  clusterUrls = getClusterUrls mgr
              in case find (\<lambda>url. url = normalizedCluster) clusterUrls of
                   None \<Rightarrow> Reply (errorResult (notConfiguredText c clusterUrls))
                 | Some matchedCluster \<Rightarrow>
                     if matchedCluster = []
                     then Reply (errorResult (notConfiguredText c clusterUrls))
                     else
                       let forwardArgs = AList.delete ''cluster'' args
                       in CallTool matchedCluster toolName forwardArgs)
         | _ \<Rightarrow> ThrowTypeError)
      else
        let forwardArgs = AList.delete ''cluster'' args
        in CallToolOnAll toolName forwardArgs)"

definition routeCall :: "DownstreamManager \<Rightarrow> ToolRouter \<Rightarrow> string \<Rightarrow> args \<Rightarrow> Dispatch" where
  "routeCall mgr router toolName args =
     (let isRoutable = toolName \<in> routableTools router;
          isFanOut = toolName \<in> fanOutTools router
      in if isRoutable then routeToCluster mgr toolName args
         else if isFanOut then routeFanOut mgr toolName args
         else if truthy (map_of args ''cluster'') then routeToCluster mgr toolName args
         else Reply (errorResult (unknownToolText toolName (map name (mergedTools router)))))"

text \<open>Running the last step: the result and the calls made on clients, or \<open>None\<close> when
  the \<open>TypeError\<close> is thrown.\<close>

definition perform ::
  "DownstreamManager \<Rightarrow> Dispatch \<Rightarrow> (ToolCallResult \<times> Invocation list) option" where
  "perform mgr d =
     (case d of
        Reply r \<Rightarrow> Some (r, [])
      | CallTool url toolName args \<Rightarrow> Some (callTool mgr url toolName args)
      | CallToolOnAll toolName args \<Rightarrow> Some (callToolOnAll mgr toolName args)
      | ThrowTypeError \<Rightarrow> None)"

text \<open>The arguments that a last step hands to the supervisor, if it calls it.\<close>

fun forwardedArgs :: "Dispatch \<Rightarrow> args option" where
  "forwardedArgs (Reply r) = None"
| "forwardedArgs (CallTool url toolName args) = Some args"
| "forwardedArgs (CallToolOnAll toolName args) = Some args"
| "forwardedArgs ThrowTypeError = None"

subsection \<open>The rewriting, read on values\<close>

text \<open>
  What the rewriting makes of the parts of a tool, as functions on values; the results
  about the store are stated with them. First the \<open>cluster\<close> property of a routable
  tool: the fields of the property that was there, with \<open>type\<close>, \<open>description\<close> and
  \<open>enum\<close> replaced.
\<close>

definition clusterPropOf :: "string list \<Rightarrow> (string \<times> PropertySchema) list \<Rightarrow> PropertySchema" where
  "clusterPropOf urls ps =
     (case map_of ps ''cluster'' of
        None \<Rightarrow> \<lparr>prop_type = None, prop_description = None, prop_enum = None, prop_rest = []\<rparr>
      | Some e \<Rightarrow> e)
     \<lparr>prop_type := Some ''string'',
      prop_description := Some (routableClusterDescription urls),
      prop_enum := Some urls\<rparr>"

text \<open>The description of a rewritten routable tool.\<close>

definition routedDescription :: "string option \<Rightarrow> string option" where
  "routedDescription d =
     (case d of
        None \<Rightarrow> Some ''Kusto tool routed to the specified cluster''
      | Some d \<Rightarrow>
          if d \<noteq> [] then Some (d @ '' (Routed to the specified cluster)'')
          else Some ''Kusto tool routed to the specified cluster'')"

text \<open>\<open>if (!required.includes('cluster')) required.push('cluster')\<close>.\<close>

definition withCluster :: "string list \<Rightarrow> string list" where
  "withCluster rs = (if ''cluster'' \<notin> set rs then rs @ [''cluster''] else rs)"

text \<open>The \<open>cluster\<close> property and the description of a rewritten fan-out tool.\<close>

definition fanOutClusterProp :: "string list \<Rightarrow> PropertySchema" where
  "fanOutClusterProp urls =
     \<lparr>prop_type = Some ''string'', prop_description = Some (fanOutClusterDescription urls),
      prop_enum = Some urls, prop_rest = []\<rparr>"

definition fanOutDescription :: "string option \<Rightarrow> string option" where
  "fanOutDescription d =
     (case d of
        None \<Rightarrow> Some ''Lists Kusto clusters across all available connections''
      | Some d \<Rightarrow>
          if d \<noteq> []
          then Some (d @ '' (Queries all available clusters unless a specific cluster is specified)'')
          else Some ''Lists Kusto clusters across all available connections'')"

text \<open>The properties and the required names of a schema, empty when the field is
  missing.\<close>

definition propsOf :: "ToolInputSchema \<Rightarrow> (string \<times> PropertySchema) list" where
  "propsOf s = (case properties s of None \<Rightarrow> [] | Some ps \<Rightarrow> ps)"

definition requiredOf :: "ToolInputSchema \<Rightarrow> string list" where
  "requiredOf s = (case required s of None \<Rightarrow> [] | Some rs \<Rightarrow> rs)"

text \<open>Whether the input schema of a tool declares a property named \<open>cluster\<close>.\<close>

definition declaresCluster :: "store \<Rightarrow> ToolDefinition \<Rightarrow> bool" where
  "declaresCluster h tool =
     (case readSchema h (inputSchema tool) of
        None \<Rightarrow> False
      | Some s \<Rightarrow> map_of (propsOf s) ''cluster'' \<noteq> None)"

section \<open>The health loop: \<open>HealthMonitor\<close>\<close>

text \<open>
  A pending reconnection timer is modelled by what it was armed with: its delay in
  milliseconds and the value of \<open>currentBackoff\<close> that its callback has captured.
  \<open>_reconnectBackoffs\<close> and \<open>_reconnectTimers\<close> are maps from endpoint keys; the order
  of their keys is never observed. Time is not modelled: a timer fires when the
  environment says so.
\<close>

record Timer =
  timer_delayMs :: int
  timer_currentBackoff :: int

record HealthMonitor =
  hm_config :: RouterConfig
  running :: bool
  reconnectBackoffs :: "string \<rightharpoonup> int"
  reconnectTimers :: "string \<rightharpoonup> Timer"

definition start :: "HealthMonitor \<Rightarrow> HealthMonitor" where
  "start hm = (if running hm then hm else hm\<lparr>running := True\<rparr>)"

definition stop :: "HealthMonitor \<Rightarrow> HealthMonitor" where
  "stop hm =
     (if \<not> running hm then hm
      else hm\<lparr>running := False, reconnectTimers := Map.empty, reconnectBackoffs := Map.empty\<rparr>)"

definition scheduleReconnect :: "HealthMonitor \<Rightarrow> string \<Rightarrow> HealthMonitor" where
  "scheduleReconnect hm url =
     (if reconnectTimers hm url \<noteq> None then hm
      else
        let currentBackoff = (case reconnectBackoffs hm url of None \<Rightarrow> 1 | Some b \<Rightarrow> b);
            backoffMs = currentBackoff * 1000
        in hm\<lparr>reconnectTimers := (reconnectTimers hm)
                 (url \<mapsto> \<lparr>timer_delayMs = backoffMs, timer_currentBackoff = currentBackoff\<rparr>)\<rparr>)"

text \<open>The callback registered with the supervisor for the exit of a child process.\<close>

definition onDownstreamExit :: "HealthMonitor \<Rightarrow> string \<Rightarrow> HealthMonitor" where
  "onDownstreamExit hm url = (if running hm then scheduleReconnect hm url else hm)"

text \<open>
  The callback of the timer of an endpoint, run when the timer fires; without a pending
  timer nothing fires. \<open>outcome\<close> is what the connection attempt of \<open>reconnect\<close> meets.
  The callback first deletes its own timer entry and then awaits \<open>reconnect\<close>. While it
  waits, the cleanup inside \<open>reconnect\<close> may end a child process, whose exit listener
  calls the exit callback of the monitor: these calls of \<open>onDownstreamExit\<close> run before
  the result of \<open>reconnect\<close> is looked at. Ticks of the health loop and \<open>stop\<close> are
  separate steps and are not interleaved with the callback here.
\<close>

definition reconnectTimerFired ::
  "ConnectOutcome \<Rightarrow> string \<Rightarrow> DownstreamManager \<times> HealthMonitor \<Rightarrow> string
   \<Rightarrow> DownstreamManager \<times> HealthMonitor" where
  "reconnectTimerFired outcome now st url =
     (case st of (mgr, hm) \<Rightarrow>
      case reconnectTimers hm url of
        None \<Rightarrow> (mgr, hm)
      | Some timer \<Rightarrow>
          let hm1 = hm\<lparr>reconnectTimers := (reconnectTimers hm)(url := None)\<rparr> in
          if \<not> running hm1 then (mgr, hm1)
          else
            case reconnect outcome now mgr url of (mgr', success, exited) \<Rightarrow>
            let hm2 = fold (\<lambda>key h. onDownstreamExit h key) exited hm1 in
            if success
            then (mgr', hm2\<lparr>reconnectBackoffs := (reconnectBackoffs hm2)(url := None)\<rparr>)
            else
              let nextBackoff = min (timer_currentBackoff timer * 2)
                                    (maxReconnectBackoffSeconds (hm_config hm2));
                  hm3 = hm2\<lparr>reconnectBackoffs := (reconnectBackoffs hm2)(url \<mapsto> nextBackoff)\<rparr>
              in (mgr', if running hm3 then scheduleReconnect hm3 url else hm3))"

text \<open>One round of the loop of \<open>_checkAll\<close>, and the loop over the connections that
  \<open>getConnections\<close> listed when the check began.\<close>

definition checkOne ::
  "string \<Rightarrow> DownstreamConnection \<Rightarrow> DownstreamManager \<times> HealthMonitor
   \<Rightarrow> DownstreamManager \<times> HealthMonitor" where
  "checkOne now connection st =
     (case st of (mgr, hm) \<Rightarrow>
      if conn_status connection = Connected
      then
        (case ping now mgr (conn_clusterUrl connection) of (mgr', ok, pinged) \<Rightarrow>
         if \<not> ok then (mgr', scheduleReconnect hm (conn_clusterUrl connection))
         else (mgr', hm\<lparr>reconnectBackoffs :=
                          (reconnectBackoffs hm)(conn_clusterUrl connection := None)\<rparr>))
      else if conn_status connection = Failed \<or> conn_status connection = Disconnected
      then
        (if reconnectTimers hm (conn_clusterUrl connection) = None
         then (mgr, scheduleReconnect hm (conn_clusterUrl connection))
         else (mgr, hm))
      else (mgr, hm))"

definition checkAll ::
  "string \<Rightarrow> DownstreamManager \<times> HealthMonitor \<Rightarrow> DownstreamManager \<times> HealthMonitor" where
  "checkAll now st = fold (checkOne now) (getConnections (fst st)) st"

section \<open>A sample deployment\<close>

text \<open>
  The concrete inputs on which the theorems below are instantiated: a store with the
  schemas of three tools, four mappings of which two name the same endpoint and one
  cannot be connected, and clients that answer every tool but \<open>boom\<close>.
\<close>

definition exampleStore :: store where
  "exampleStore =
     [PropertiesObj
        [(''cluster'', \<lparr>prop_type = Some ''string'', prop_description = Some ''Kusto cluster URL'',
                        prop_enum = None, prop_rest = []\<rparr>),
         (''database'', \<lparr>prop_type = Some ''string'', prop_description = Some ''Database name'',
                         prop_enum = None, prop_rest = []\<rparr>),
         (''query'', \<lparr>prop_type = Some ''string'', prop_description = Some ''KQL query'',
                      prop_enum = None, prop_rest = []\<rparr>)],
      ArrayObj [''cluster'', ''database'', ''query''],
      SchemaObj (Some 0) (Some 1) None,
      PropertiesObj
        [(''subscriptionId'', \<lparr>prop_type = Some ''string'',
                               prop_description = Some ''Azure subscription ID'',
                               prop_enum = None, prop_rest = []\<rparr>)],
      ArrayObj [''subscriptionId''],
      SchemaObj (Some 3) (Some 4) None,
      PropertiesObj
        [(''cluster'', \<lparr>prop_type = Some ''string'', prop_description = Some ''Kusto cluster URL'',
                        prop_enum = None, prop_rest = []\<rparr>)],
      SchemaObj (Some 6) None None]"

definition exampleQueryTool :: ToolDefinition where
  "exampleQueryTool =
     \<lparr>name = ''kusto_query'',
      description = Some ''Execute a KQL query against an Azure Data Explorer cluster'',
      inputSchema = 2\<rparr>"

definition exampleListTool :: ToolDefinition where
  "exampleListTool =
     \<lparr>name = ''kusto_cluster_list'', description = Some ''List available Kusto clusters'',
      inputSchema = 5\<rparr>"

definition exampleSampleTool :: ToolDefinition where
  "exampleSampleTool = \<lparr>name = ''kusto_sample'', description = None, inputSchema = 7\<rparr>"

definition exampleTools :: "ToolDefinition list" where
  "exampleTools = [exampleQueryTool, exampleListTool, exampleSampleTool]"

definition exampleClient :: "string \<Rightarrow> Client" where
  "exampleClient tag =
     \<lparr>client_ping = (if tag = ''b.example'' then PingTimeout else PingResolved),
      client_callTool = (\<lambda>toolName args.
         if toolName = ''boom'' then Rejected ''down''
         else Resolved (Some [textContent (tag @ '':'' @ toolName)]) None)\<rparr>"

definition exampleConfig :: RouterConfig where
  "exampleConfig =
     \<lparr>mappings = [\<lparr>clusterUrl = ''https://A.example/'', identity = []\<rparr>,
                  \<lparr>clusterUrl = ''b.example'', identity = ''id-b''\<rparr>,
                  \<lparr>clusterUrl = ''a.example'', identity = ''id-a''\<rparr>,
                  \<lparr>clusterUrl = ''c.example'', identity = ''id-c''\<rparr>],
      readOnly = True, pingIntervalSeconds = 60, pingTimeoutSeconds = 10,
      maxReconnectBackoffSeconds = 300\<rparr>"

definition exampleSpawn :: "ClusterMapping \<Rightarrow> ConnectOutcome" where
  "exampleSpawn m =
     (if clusterUrl m = ''c.example'' then ConnectRejected ''spawn failed''
      else ConnectResolved (exampleClient (clusterUrl m)) exampleTools True)"

definition exampleManager :: DownstreamManager where
  "exampleManager = initializeAll exampleSpawn ''t0'' \<lparr>downstreams = [], config = exampleConfig\<rparr>"

text \<open>The same supervisor after the child processes of its two connected endpoints have
  exited.\<close>

definition exampleManagerDown :: DownstreamManager where
  "exampleManagerDown =
     processExited ''https://b.example'' (processExited ''https://a.example'' exampleManager)"

definition emptyRouter :: ToolRouter where
  "emptyRouter = \<lparr>mergedTools = [], routableTools = {}, fanOutTools = {}\<rparr>"

text \<open>A first refresh of a new router, and a second refresh after the two exits.\<close>

definition firstRefresh :: "(ToolRouter \<times> store) option" where
  "firstRefresh = refreshTools exampleManager exampleStore emptyRouter"

definition secondRefresh :: "(ToolRouter \<times> store) option" where
  "secondRefresh =
     (case firstRefresh of
        None \<Rightarrow> None
      | Some (router, h) \<Rightarrow> refreshTools exampleManagerDown h router)"

definition exampleRouter :: ToolRouter where
  "exampleRouter = (case firstRefresh of None \<Rightarrow> emptyRouter | Some (router, h) \<Rightarrow> router)"

definition exampleArgs :: args where
  "exampleArgs = [(''cluster'', JStr ''https://A.EXAMPLE/''), (''database'', JStr ''d'')]"

definition exampleMonitor :: HealthMonitor where
  "exampleMonitor =
     \<lparr>hm_config = exampleConfig, running = True, reconnectBackoffs = Map.empty,
      reconnectTimers = Map.empty\<rparr>"

definition exampleListArgs :: args where
  "exampleListArgs = [(''subscriptionId'', JStr ''s''), (''cluster'', JStr ''https://A.EXAMPLE/'')]"

text \<open>
  One tick of the health loop on the sample deployment, in which the ping of
  \<open>https://b.example\<close> times out, and then the reconnection timer of that endpoint
  firing, once with a connection attempt that fails and once with one that succeeds.
\<close>

definition exampleAfterTick :: "DownstreamManager \<times> HealthMonitor" where
  "exampleAfterTick = checkAll ''t1'' (exampleManager, exampleMonitor)"

definition exampleAfterFailure :: "DownstreamManager \<times> HealthMonitor" where
  "exampleAfterFailure =
     reconnectTimerFired (ConnectRejected ''spawn failed'') ''t2'' exampleAfterTick
       ''https://b.example''"

definition exampleAfterSuccess :: "DownstreamManager \<times> HealthMonitor" where
  "exampleAfterSuccess =
     reconnectTimerFired (ConnectResolved (exampleClient ''b2.example'') exampleTools True) ''t2''
       exampleAfterTick ''https://b.example''"

text \<open>A supervisor with one mapping, whose URL has a blank before its trailing slash.\<close>

definition exampleBlankManager :: DownstreamManager where
  "exampleBlankManager =
     initializeAll (\<lambda>m. ConnectResolved (exampleClient (clusterUrl m)) exampleTools True) ''t0''
       \<lparr>downstreams = [],
        config = exampleConfig\<lparr>mappings := [\<lparr>clusterUrl = ''a /'', identity = []\<rparr>]\<rparr>\<rparr>"

section \<open>Normalization: idempotence and the examples of the specification\<close>

subsection \<open>Lower-casing and stripping are idempotent\<close>

lemma toLowerCaseChar_idem: "toLowerCaseChar (toLowerCaseChar c) = toLowerCaseChar c"
  by (auto simp: toLowerCaseChar_def Let_def)

lemma lower_fixed_scheme: "\<forall>c \<in> set ''https://''. toLowerCaseChar c = c"
  by code_simp

lemma set_strip: "set (stripTrailingSlashes s) \<subseteq> set s"
  unfolding stripTrailingSlashes_def using set_dropWhileD by fastforce

lemma normalize_lower_chars:
  assumes a: "c \<in> set (normalizeClusterUrl x)"
  shows "toLowerCaseChar c = c"
proof -
  let ?t = "toLowerCase (trim x)"
  have "set (normalizeClusterUrl x) \<subseteq> set ''https://'' \<union> set ?t"
  proof (cases "\<not> startsWith ?t ''https://'' \<and> \<not> startsWith ?t ''http://''")
    case True
    then have "normalizeClusterUrl x = stripTrailingSlashes (''https://'' @ ?t)"
      unfolding normalizeClusterUrl_def Let_def by simp
    moreover have "set (stripTrailingSlashes (''https://'' @ ?t)) \<subseteq> set (''https://'' @ ?t)"
      by (rule set_strip)
    ultimately show ?thesis by (simp only: set_append)
  next
    case False
    then have "normalizeClusterUrl x = stripTrailingSlashes ?t"
      unfolding normalizeClusterUrl_def Let_def by auto
    then show ?thesis using set_strip [of ?t] by auto
  qed
  with a have "c \<in> set ''https://'' \<or> c \<in> set ?t" by blast
  then show ?thesis
  proof
    assume "c \<in> set ''https://''"
    then show ?thesis using lower_fixed_scheme by blast
  next
    assume "c \<in> set ?t"
    then show ?thesis by (auto simp: toLowerCase_def toLowerCaseChar_idem)
  qed
qed

lemma toLowerCase_normalize: "toLowerCase (normalizeClusterUrl x) = normalizeClusterUrl x"
  unfolding toLowerCase_def by (rule map_idI) (rule normalize_lower_chars)

lemma strip_idem: "stripTrailingSlashes (stripTrailingSlashes s) = stripTrailingSlashes s"
  unfolding stripTrailingSlashes_def by (simp add: dropWhile_idem)

lemma strip_normalize: "stripTrailingSlashes (normalizeClusterUrl x) = normalizeClusterUrl x"
  unfolding normalizeClusterUrl_def Let_def by (simp add: strip_idem)

lemma dropWhile_hd: "s \<noteq> [] \<Longrightarrow> \<not> P (hd s) \<Longrightarrow> dropWhile P s = s"
  by (cases s) auto

lemma trim_id:
  "s \<noteq> [] \<Longrightarrow> \<not> isWhiteSpace (hd s) \<Longrightarrow> \<not> isWhiteSpace (last s) \<Longrightarrow> trim s = s"
  unfolding trim_def by (simp add: dropWhile_hd hd_rev)

lemma hasScheme_hd: "hasScheme s \<Longrightarrow> s \<noteq> [] \<and> hd s = CHR ''h''"
  by (cases s) (auto simp: hasScheme_def startsWith_def)

lemma h_not_ws: "\<not> isWhiteSpace CHR ''h''"
  by code_simp

text \<open>A lower-case string with a scheme, no trailing slash and no trailing white space is
  a fixed point.\<close>

lemma normalize_fixed:
  assumes "hasScheme r" "\<not> isWhiteSpace (last r)" "toLowerCase r = r"
    "stripTrailingSlashes r = r"
  shows "normalizeClusterUrl r = r"
proof -
  have "trim r = r" using assms(1,2) hasScheme_hd h_not_ws by (intro trim_id) auto
  then show ?thesis using assms unfolding normalizeClusterUrl_def Let_def hasScheme_def by auto
qed

lemma normalize_idem_if:
  "hasScheme (normalizeClusterUrl x) \<Longrightarrow> \<not> isWhiteSpace (last (normalizeClusterUrl x))
   \<Longrightarrow> normalizeClusterUrl (normalizeClusterUrl x) = normalizeClusterUrl x"
  by (rule normalize_fixed) (simp_all add: toLowerCase_normalize strip_normalize)

subsection \<open>Where the normal form is not a fixed point\<close>

lemma strip_append:
  "stripTrailingSlashes (a @ b) =
     (if stripTrailingSlashes b = [] then stripTrailingSlashes a else a @ stripTrailingSlashes b)"
  unfolding stripTrailingSlashes_def by (auto simp: dropWhile_append dropWhile_eq_Nil_conv)

lemma startsWith_append: "startsWith s p \<longleftrightarrow> (\<exists>q. s = p @ q)"
  unfolding startsWith_def by (metis append_eq_conv_conj append_take_drop_id)

lemma strip_https: "stripTrailingSlashes ''https://'' = ''https:''"
  by (simp add: stripTrailingSlashes_def)

lemma strip_http: "stripTrailingSlashes ''http://'' = ''http:''"
  by (simp add: stripTrailingSlashes_def)

text \<open>Stripping removes the scheme only when nothing but slashes follows it.\<close>

lemma strip_scheme_lost:
  assumes "hasScheme p" "\<not> hasScheme (stripTrailingSlashes p)"
  shows "stripTrailingSlashes p = ''https:'' \<or> stripTrailingSlashes p = ''http:''"
proof -
  from assms(1) obtain s q where sq: "p = s @ q" "s = ''https://'' \<or> s = ''http://''"
    unfolding hasScheme_def startsWith_append by blast
  show ?thesis
  proof (cases "stripTrailingSlashes q = []")
    case True
    then have "stripTrailingSlashes p = stripTrailingSlashes s"
      using sq(1) by (simp add: strip_append)
    then show ?thesis using sq(2) strip_https strip_http by auto
  next
    case False
    then have "stripTrailingSlashes p = s @ stripTrailingSlashes q"
      using sq(1) by (simp add: strip_append)
    then have "hasScheme (stripTrailingSlashes p)"
      unfolding hasScheme_def startsWith_append using sq(2) by blast
    with assms(2) show ?thesis by simp
  qed
qed

lemma normalize_as_strip:
  "\<exists>p. hasScheme p \<and> normalizeClusterUrl x = stripTrailingSlashes p"
proof (cases "hasScheme (toLowerCase (trim x))")
  case True
  then have "normalizeClusterUrl x = stripTrailingSlashes (toLowerCase (trim x))"
    unfolding normalizeClusterUrl_def Let_def hasScheme_def by auto
  with True show ?thesis by blast
next
  case False
  then have "normalizeClusterUrl x = stripTrailingSlashes (''https://'' @ toLowerCase (trim x))"
    unfolding normalizeClusterUrl_def Let_def hasScheme_def by auto
  moreover have "hasScheme (''https://'' @ toLowerCase (trim x))"
    unfolding hasScheme_def startsWith_append by blast
  ultimately show ?thesis by blast
qed

lemma normalize_https_colon: "normalizeClusterUrl ''https:'' = ''https://https:''"
  by code_simp

lemma normalize_http_colon: "normalizeClusterUrl ''http:'' = ''https://http:''"
  by code_simp

lemma normalize_no_scheme_not_fixed:
  assumes "\<not> hasScheme (normalizeClusterUrl x)"
  shows "normalizeClusterUrl (normalizeClusterUrl x) \<noteq> normalizeClusterUrl x"
proof -
  obtain p where p: "hasScheme p" "normalizeClusterUrl x = stripTrailingSlashes p"
    using normalize_as_strip by blast
  with assms have "normalizeClusterUrl x = ''https:'' \<or> normalizeClusterUrl x = ''http:''"
    using strip_scheme_lost by simp
  then show ?thesis using normalize_https_colon normalize_http_colon by auto
qed

lemma trim_keeps_prefix:
  assumes "s \<noteq> []" "\<not> isWhiteSpace (hd s)" "\<not> isWhiteSpace (last s)"
  shows "trim (s @ q) = s @ rev (dropWhile isWhiteSpace (rev q))"
proof -
  have 1: "dropWhile isWhiteSpace (s @ q) = s @ q" using assms(1,2) by (cases s) auto
  have 2: "dropWhile isWhiteSpace (rev s) = rev s"
    using assms(1,3) by (intro dropWhile_hd) (auto simp: hd_rev)
  show ?thesis unfolding trim_def 1 by (auto simp: dropWhile_append 2)
qed

lemma length_strip: "length (stripTrailingSlashes s) \<le> length s"
  unfolding stripTrailingSlashes_def
  using length_dropWhile_le [of "\<lambda>c. c = CHR ''/''" "rev s"] by simp

lemma scheme_ends:
  "s = ''https://'' \<or> s = ''http://'' \<Longrightarrow>
   s \<noteq> [] \<and> \<not> isWhiteSpace (hd s) \<and> \<not> isWhiteSpace (last s)"
  by (auto simp: isWhiteSpace_def)

text \<open>A normal form that ends in white space loses it, and so gets shorter, when it is
  normalized again.\<close>

lemma normalize_trailing_ws_shrinks:
  assumes hs: "hasScheme r" and lo: "toLowerCase r = r" and ws: "isWhiteSpace (last r)"
  shows "length (normalizeClusterUrl r) < length r"
proof -
  from hs obtain s q where sq: "r = s @ q" "s = ''https://'' \<or> s = ''http://''"
    unfolding hasScheme_def startsWith_append by blast
  let ?q' = "rev (dropWhile isWhiteSpace (rev q))"
  have t: "trim r = s @ ?q'" using sq scheme_ends [OF sq(2)] by (simp add: trim_keeps_prefix)
  have qne: "q \<noteq> []" using ws sq scheme_ends [OF sq(2)] by auto
  then have "last q = last r" using sq(1) by simp
  then have "isWhiteSpace (hd (rev q))" using ws qne by (simp add: hd_rev)
  then have "length (dropWhile isWhiteSpace (rev q)) < length (rev q)"
    using qne by (cases "rev q") (auto simp: less_Suc_eq_le length_dropWhile_le)
  then have len: "length (trim r) < length r" using t sq(1) by simp
  have "set ?q' \<subseteq> set q" using set_dropWhileD by fastforce
  moreover have "\<forall>c \<in> set r. toLowerCaseChar c = c"
    using lo unfolding toLowerCase_def by (metis map_eq_conv list.map_id0 id_apply)
  ultimately have "\<forall>c \<in> set (trim r). toLowerCaseChar c = c" using t sq(1) by auto
  then have lt: "toLowerCase (trim r) = trim r" unfolding toLowerCase_def by (simp add: map_idI)
  have "hasScheme (trim r)" unfolding t hasScheme_def startsWith_append using sq(2) by blast
  then have "normalizeClusterUrl r = stripTrailingSlashes (trim r)"
    unfolding normalizeClusterUrl_def Let_def lt hasScheme_def by auto
  then show ?thesis using len length_strip [of "trim r"] by simp
qed

lemma normalize_idem_iff:
  "normalizeClusterUrl (normalizeClusterUrl x) = normalizeClusterUrl x
   \<longleftrightarrow> hasScheme (normalizeClusterUrl x) \<and> \<not> isWhiteSpace (last (normalizeClusterUrl x))"
proof
  assume fx: "normalizeClusterUrl (normalizeClusterUrl x) = normalizeClusterUrl x"
  then have hs: "hasScheme (normalizeClusterUrl x)"
    using normalize_no_scheme_not_fixed by blast
  moreover have "\<not> isWhiteSpace (last (normalizeClusterUrl x))"
  proof
    assume "isWhiteSpace (last (normalizeClusterUrl x))"
    then have "length (normalizeClusterUrl (normalizeClusterUrl x))
               < length (normalizeClusterUrl x)"
      using hs toLowerCase_normalize normalize_trailing_ws_shrinks by blast
    with fx show False by simp
  qed
  ultimately show "hasScheme (normalizeClusterUrl x)
                   \<and> \<not> isWhiteSpace (last (normalizeClusterUrl x))" by simp
next
  assume "hasScheme (normalizeClusterUrl x) \<and> \<not> isWhiteSpace (last (normalizeClusterUrl x))"
  then show "normalizeClusterUrl (normalizeClusterUrl x) = normalizeClusterUrl x"
    using normalize_idem_if by blast
qed

subsection \<open>The examples of the specification, and where idempotence fails\<close>

text \<open>
  The spellings of a cluster URL that the specification lists are all normalized to
  \<open>https://mycluster.kusto.windows.net\<close>, and \<open>http://x\<close> is preserved.
\<close>

lemma normalize_examples:
  "normalizeClusterUrl ''https://MyCluster.Kusto.Windows.Net''
       = ''https://mycluster.kusto.windows.net''
   \<and> normalizeClusterUrl ''https://mycluster.kusto.windows.net/''
       = ''https://mycluster.kusto.windows.net''
   \<and> normalizeClusterUrl ''mycluster.kusto.windows.net''
       = ''https://mycluster.kusto.windows.net''
   \<and> normalizeClusterUrl ''  https://mycluster.kusto.windows.net  ''
       = ''https://mycluster.kusto.windows.net''
   \<and> normalizeClusterUrl ''http://x'' = ''http://x''"
  by code_simp

text \<open>
  C8 fails at the input \<open>https://\<close>. The function strips trailing slashes after it has
  looked for the scheme, so the slashes of the scheme itself are stripped: the result is
  \<open>https:\<close>, which does not begin with \<open>https://\<close> although the function is documented
  to ensure that prefix, and normalizing it again gives \<open>https://https:\<close>. The function
  also trims only before it strips: \<open>a /\<close> gives \<open>https://a \<close>, which ends in a
  blank, and normalizing that again gives \<open>https://a\<close>.
\<close>

theorem C8_scheme_stripped:
  "normalizeClusterUrl ''https://'' = ''https:''
   \<and> \<not> hasScheme (normalizeClusterUrl ''https://'')
   \<and> normalizeClusterUrl (normalizeClusterUrl ''https://'') = ''https://https:''
   \<and> normalizeClusterUrl ''a /'' = ''https://a ''
   \<and> normalizeClusterUrl (normalizeClusterUrl ''a /'') = ''https://a''"
  by code_simp

section \<open>The supervisor: calls, pings and the order of the endpoints\<close>

subsection \<open>Substrings and joined lists\<close>

lemma includes_str_startsWith: "startsWith s sub \<Longrightarrow> includes_str s sub"
  by (cases s) (auto simp: startsWith_def)

lemma includes_str_append_left: "includes_str s sub \<Longrightarrow> includes_str (a @ s) sub"
  by (induction a) auto

lemma includes_str_middle: "includes_str (a @ sub @ b) sub"
  by (rule includes_str_append_left, rule includes_str_startsWith) (simp add: startsWith_def)

lemma startsWith_append_right: "startsWith s sub \<Longrightarrow> startsWith (s @ b) sub"
  unfolding startsWith_append by auto

lemma includes_str_append_right: "includes_str s sub \<Longrightarrow> includes_str (s @ b) sub"
proof (induction s)
  case Nil
  then show ?case using includes_str_middle [of "[]" sub b] by simp
next
  case (Cons c cs)
  then show ?case using startsWith_append_right [of "c # cs" sub b] by auto
qed

lemma join_includes: "u \<in> set xs \<Longrightarrow> includes_str (join sep xs) u"
proof (induction sep xs rule: join.induct)
  case (1 sep)
  then show ?case by simp
next
  case (2 sep x)
  then show ?case using includes_str_middle [of "[]" u "[]"] by simp
next
  case (3 sep x y ys)
  show ?case
  proof (cases "u = x")
    case True
    then show ?thesis using includes_str_middle [of "[]" x "sep @ join sep (y # ys)"] by simp
  next
    case False
    with 3 have "includes_str (join sep (y # ys)) u" by simp
    then have "includes_str ((x @ sep) @ join sep (y # ys)) u" by (rule includes_str_append_left)
    then show ?thesis by simp
  qed
qed

lemma mergeResults_fulfilled:
  "mergeResults (map Fulfilled rs) (mc, he)
     = (mc @ concat (map content rs), he \<or> (\<exists>r \<in> set rs. isError r = Some True))"
  by (induction rs arbitrary: mc he) auto

lemma callToolOnAll_none:
  "connectedDownstreams mgr = [] \<Longrightarrow>
   callToolOnAll mgr toolName args
     = (errorResult ''Error: No downstream MCP servers are currently connected.'', [])"
  by (simp add: callToolOnAll_def)

lemma callToolOnAll_some:
  assumes "connectedDownstreams mgr \<noteq> []"
  shows "fst (callToolOnAll mgr toolName args)
     = \<lparr>content = concat (map (\<lambda>(url, state). content (fst (callTool mgr url toolName args)))
                            (connectedDownstreams mgr)),
        isError = Some (\<exists>(url, state) \<in> set (connectedDownstreams mgr).
                          isError (fst (callTool mgr url toolName args)) = Some True)\<rparr>"
proof -
  let ?calls = "map (\<lambda>(url, state). callTool mgr url toolName args) (connectedDownstreams mgr)"
  have eq: "mergeResults (map (\<lambda>c. Fulfilled (fst c)) ?calls) ([], False)
      = (concat (map (\<lambda>(url, state). content (fst (callTool mgr url toolName args)))
                            (connectedDownstreams mgr)),
         \<exists>(url, state) \<in> set (connectedDownstreams mgr).
                          isError (fst (callTool mgr url toolName args)) = Some True)"
    (is "?L = ?R")
  proof -
    have "?L = mergeResults (map Fulfilled (map fst ?calls)) ([], False)"
      by (simp add: comp_def)
    also have "\<dots> = ([] @ concat (map content (map fst ?calls)),
                      False \<or> (\<exists>r \<in> set (map fst ?calls). isError r = Some True))"
      by (rule mergeResults_fulfilled)
    also have "\<dots> = ?R" by (auto simp: case_prod_unfold comp_def)
    finally show ?thesis .
  qed
  show ?thesis unfolding callToolOnAll_def Let_def eq using assms by simp
qed


lemma setState_lookup:
  "map_of (downstreams (setState key state mgr)) k
     = (if k = key then Some state else map_of (downstreams mgr) k)"
  by (simp add: setState_def update_conv')

lemma setState_keys:
  "map_of (downstreams mgr) key \<noteq> None \<Longrightarrow>
   getClusterUrls (setState key state mgr) = getClusterUrls mgr"
  by (auto simp: setState_def getClusterUrls_def update_keys map_of_eq_None_iff)

lemma callTool_unknown:
  "map_of (downstreams mgr) (normalizeClusterUrl url) = None \<Longrightarrow>
   callTool mgr url toolName args = (errorResult (unknownClusterText url (getClusterUrls mgr)), [])"
  by (simp add: callTool_def Let_def)

lemma callTool_not_connected:
  "map_of (downstreams mgr) (normalizeClusterUrl url) = Some state \<Longrightarrow>
   client state = None \<or> status state \<noteq> Connected \<Longrightarrow>
   callTool mgr url toolName args = (errorResult (notConnectedText url (status state)), [])"
  by (auto simp: callTool_def Let_def split: option.splits)

lemma unknownClusterText_lists: "u \<in> set urls \<Longrightarrow> includes_str (unknownClusterText url urls) u"
  unfolding unknownClusterText_def
  using includes_str_append_left [OF join_includes, of u urls
      "''Error: Unknown cluster '' @ quoted url @ ''. Available clusters: ''" "'', ''"]
  by simp

text \<open>
  C2, amended: a call on one endpoint whose URL is unknown after normalization, or
  whose record holds no client or is not \<open>Connected\<close>, makes no call on a client and
  returns one textual error with \<open>isError = true\<close>. For an unknown endpoint the text lists
  the URL of every endpoint; for a known endpoint it names the requested URL and the
  status of its record.
\<close>

theorem C2_callTool_unavailable:
  "(map_of (downstreams mgr) (normalizeClusterUrl url) = None \<longrightarrow>
      callTool mgr url toolName args
        = (errorResult (unknownClusterText url (getClusterUrls mgr)), [])
      \<and> (\<forall>u \<in> set (getClusterUrls mgr).
            includes_str (unknownClusterText url (getClusterUrls mgr)) u))
   \<and> (\<forall>state. map_of (downstreams mgr) (normalizeClusterUrl url) = Some state
         \<and> (client state = None \<or> status state \<noteq> Connected) \<longrightarrow>
      callTool mgr url toolName args
        = (errorResult (notConnectedText url (status state)), []))"
  using callTool_unknown callTool_not_connected unknownClusterText_lists by blast

text \<open>
  C5: \<open>ping\<close> of an endpoint that is unknown, holds no client or is not \<open>Connected\<close>
  returns false, pings no client and leaves the supervisor as it is. Otherwise the
  client of the endpoint is pinged, the keys and every other record stay as they are,
  and: when the ping resolves, \<open>ping\<close> returns true and the record differs only in
  \<open>lastHeartbeat\<close>, now the current time, and \<open>consecutiveFailures\<close>, now 0; when it
  rejects or times out, \<open>ping\<close> returns false and the record differs only in
  \<open>consecutiveFailures\<close>, one more than before, and \<open>status\<close>, which is
  \<open>Disconnected\<close> if the new count is at least 3 and \<open>Failed\<close> otherwise.
\<close>

theorem C5_ping:
  "(\<not> (\<exists>state c. map_of (downstreams mgr) (normalizeClusterUrl url) = Some state
          \<and> client state = Some c \<and> status state = Connected)
      \<longrightarrow> ping now mgr url = (mgr, False, []))
   \<and> (\<forall>state c. map_of (downstreams mgr) (normalizeClusterUrl url) = Some state
          \<and> client state = Some c \<and> status state = Connected \<longrightarrow>
        (case ping now mgr url of (mgr', ok, pinged) \<Rightarrow>
           pinged = [normalizeClusterUrl url]
           \<and> getClusterUrls mgr' = getClusterUrls mgr
           \<and> (\<forall>k. k \<noteq> normalizeClusterUrl url \<longrightarrow>
                  map_of (downstreams mgr') k = map_of (downstreams mgr) k)
           \<and> (client_ping c = PingResolved \<longrightarrow>
                ok \<and> map_of (downstreams mgr') (normalizeClusterUrl url)
                       = Some (state\<lparr>lastHeartbeat := Some now, consecutiveFailures := 0\<rparr>))
           \<and> (client_ping c \<noteq> PingResolved \<longrightarrow>
                \<not> ok \<and> map_of (downstreams mgr') (normalizeClusterUrl url)
                       = Some (state\<lparr>consecutiveFailures := consecutiveFailures state + 1,
                                     status := (if consecutiveFailures state + 1 \<ge> 3
                                                then Disconnected else Failed)\<rparr>))))"
proof (intro conjI impI allI)
  assume "\<not> (\<exists>state c. map_of (downstreams mgr) (normalizeClusterUrl url) = Some state
          \<and> client state = Some c \<and> status state = Connected)"
  then show "ping now mgr url = (mgr, False, [])"
    by (auto simp: ping_def Let_def split: option.splits)
next
  fix state c
  assume a: "map_of (downstreams mgr) (normalizeClusterUrl url) = Some state
          \<and> client state = Some c \<and> status state = Connected"
  then have ne: "map_of (downstreams mgr) (normalizeClusterUrl url) \<noteq> None" by simp
  show "case ping now mgr url of (mgr', ok, pinged) \<Rightarrow>
           pinged = [normalizeClusterUrl url]
           \<and> getClusterUrls mgr' = getClusterUrls mgr
           \<and> (\<forall>k. k \<noteq> normalizeClusterUrl url \<longrightarrow>
                  map_of (downstreams mgr') k = map_of (downstreams mgr) k)
           \<and> (client_ping c = PingResolved \<longrightarrow>
                ok \<and> map_of (downstreams mgr') (normalizeClusterUrl url)
                       = Some (state\<lparr>lastHeartbeat := Some now, consecutiveFailures := 0\<rparr>))
           \<and> (client_ping c \<noteq> PingResolved \<longrightarrow>
                \<not> ok \<and> map_of (downstreams mgr') (normalizeClusterUrl url)
                       = Some (state\<lparr>consecutiveFailures := consecutiveFailures state + 1,
                                     status := (if consecutiveFailures state + 1 \<ge> 3
                                                then Disconnected else Failed)\<rparr>))"
    using a setState_keys [OF ne]
    by (simp add: ping_def Let_def setState_lookup)
qed

lemma callTool_rejected:
  "map_of (downstreams mgr) (normalizeClusterUrl url) = Some state \<Longrightarrow>
   client state = Some c \<Longrightarrow> status state = Connected \<Longrightarrow>
   client_callTool c toolName args = Rejected msg \<Longrightarrow>
   fst (callTool mgr url toolName args)
     = errorResult (callFailedText toolName url msg)"
  by (simp add: callTool_def Let_def)

lemma callTool_connected_isError:
  "map_of (downstreams mgr) (normalizeClusterUrl url) = Some state \<Longrightarrow>
   client state = Some c \<Longrightarrow> status state = Connected \<Longrightarrow>
   (isError (fst (callTool mgr url toolName args)) = Some True) = clientFailed c toolName args"
  by (simp add: callTool_def Let_def clientFailed_def errorResult_def split: CallOutcome.splits)

lemma connected_entry:
  assumes "distinct (getClusterUrls mgr)"
    and "\<forall>k \<in> set (getClusterUrls mgr). normalizeClusterUrl k = k"
    and "(url, state) \<in> set (connectedDownstreams mgr)"
  shows "map_of (downstreams mgr) (normalizeClusterUrl url) = Some state
         \<and> status state = Connected \<and> client state \<noteq> None"
proof -
  from assms(3) have m: "(url, state) \<in> set (downstreams mgr)"
    and c: "status state = Connected \<and> client state \<noteq> None"
    by (auto simp: connectedDownstreams_def)
  from m have "url \<in> set (getClusterUrls mgr)" by (force simp: getClusterUrls_def)
  with assms(2) have "normalizeClusterUrl url = url" by blast
  moreover have "map_of (downstreams mgr) url = Some state"
    using assms(1) m by (simp add: getClusterUrls_def)
  ultimately show ?thesis using c by simp
qed

lemma callToolOnAll_isError_clients:
  assumes "distinct (getClusterUrls mgr)"
    and "\<forall>k \<in> set (getClusterUrls mgr). normalizeClusterUrl k = k"
  shows "(\<exists>(url, state) \<in> set (connectedDownstreams mgr).
            isError (fst (callTool mgr url toolName args)) = Some True)
         = (\<exists>(url, state) \<in> set (connectedDownstreams mgr).
              case client state of None \<Rightarrow> False | Some c \<Rightarrow> clientFailed c toolName args)"
proof -
  have "(isError (fst (callTool mgr url toolName args)) = Some True)
          = (case client state of None \<Rightarrow> False | Some c \<Rightarrow> clientFailed c toolName args)"
    if "(url, state) \<in> set (connectedDownstreams mgr)" for url state
  proof -
    from connected_entry [OF assms that] obtain c where
      e: "map_of (downstreams mgr) (normalizeClusterUrl url) = Some state"
        "client state = Some c" "status state = Connected" by auto
    show ?thesis using callTool_connected_isError [OF e, of toolName args] e(2) by simp
  qed
  then show ?thesis by blast
qed

text \<open>
  C6: when no endpoint is \<open>Connected\<close> with a client, \<open>callToolOnAll\<close> returns the
  textual error "No downstream MCP servers are currently connected." with
  \<open>isError = true\<close> and calls no client. Otherwise its content is the concatenation, in
  the order of the endpoints, of the content of the call on each connected endpoint; its
  \<open>isError\<close> is true if one of these calls returned \<open>isError = true\<close> and false
  otherwise; and for every connected endpoint on which the call of the client rejects,
  the textual error for that endpoint is in the content and \<open>isError\<close> is true.
\<close>

theorem C6_callToolOnAll:
  "(connectedDownstreams mgr = [] \<longrightarrow>
      callToolOnAll mgr toolName args
        = (errorResult ''Error: No downstream MCP servers are currently connected.'', []))
   \<and> (connectedDownstreams mgr \<noteq> [] \<longrightarrow>
        content (fst (callToolOnAll mgr toolName args))
          = concat (map (\<lambda>(url, state). content (fst (callTool mgr url toolName args)))
                        (connectedDownstreams mgr))
        \<and> isError (fst (callToolOnAll mgr toolName args))
          = Some (\<exists>(url, state) \<in> set (connectedDownstreams mgr).
                    isError (fst (callTool mgr url toolName args)) = Some True)
        \<and> (distinct (getClusterUrls mgr)
             \<and> (\<forall>k \<in> set (getClusterUrls mgr). normalizeClusterUrl k = k) \<longrightarrow>
            isError (fst (callToolOnAll mgr toolName args))
              = Some (\<exists>(url, state) \<in> set (connectedDownstreams mgr).
                        case client state of None \<Rightarrow> False
                        | Some c \<Rightarrow> clientFailed c toolName args))
        \<and> (\<forall>(url, state) \<in> set (connectedDownstreams mgr). \<forall>state' c msg.
              map_of (downstreams mgr) (normalizeClusterUrl url) = Some state'
              \<and> client state' = Some c \<and> status state' = Connected
              \<and> client_callTool c toolName args = Rejected msg \<longrightarrow>
              textContent (callFailedText toolName url msg)
                \<in> set (content (fst (callToolOnAll mgr toolName args)))
              \<and> isError (fst (callToolOnAll mgr toolName args)) = Some True))"
proof (intro conjI impI)
  assume "connectedDownstreams mgr = []"
  then show "callToolOnAll mgr toolName args
        = (errorResult ''Error: No downstream MCP servers are currently connected.'', [])"
    by (rule callToolOnAll_none)
next
  assume ne: "connectedDownstreams mgr \<noteq> []"
  note r = callToolOnAll_some [OF ne, of toolName args]
  show c: "content (fst (callToolOnAll mgr toolName args))
          = concat (map (\<lambda>(url, state). content (fst (callTool mgr url toolName args)))
                        (connectedDownstreams mgr))"
    by (simp add: r)
  show e: "isError (fst (callToolOnAll mgr toolName args))
          = Some (\<exists>(url, state) \<in> set (connectedDownstreams mgr).
                    isError (fst (callTool mgr url toolName args)) = Some True)"
    by (simp add: r)
  show "isError (fst (callToolOnAll mgr toolName args))
              = Some (\<exists>(url, state) \<in> set (connectedDownstreams mgr).
                        case client state of None \<Rightarrow> False
                        | Some c \<Rightarrow> clientFailed c toolName args)"
    if "distinct (getClusterUrls mgr)
             \<and> (\<forall>k \<in> set (getClusterUrls mgr). normalizeClusterUrl k = k)"
    unfolding e using callToolOnAll_isError_clients [of mgr toolName args] that by simp
  show "\<forall>(url, state) \<in> set (connectedDownstreams mgr). \<forall>state' c msg.
              map_of (downstreams mgr) (normalizeClusterUrl url) = Some state'
              \<and> client state' = Some c \<and> status state' = Connected
              \<and> client_callTool c toolName args = Rejected msg \<longrightarrow>
              textContent (callFailedText toolName url msg)
                \<in> set (content (fst (callToolOnAll mgr toolName args)))
              \<and> isError (fst (callToolOnAll mgr toolName args)) = Some True"
  proof (intro ballI, clarify)
    fix url state state' c msg
    assume m: "(url, state) \<in> set (connectedDownstreams mgr)"
      and l: "map_of (downstreams mgr) (normalizeClusterUrl url) = Some state'"
        "client state' = Some c" "status state' = Connected"
        "client_callTool c toolName args = Rejected msg"
    let ?t = "callFailedText toolName url msg"
    have f: "fst (callTool mgr url toolName args) = errorResult ?t"
      using l by (rule callTool_rejected)
    have "textContent ?t \<in> set (content (fst (callTool mgr url toolName args)))"
      by (simp add: f errorResult_def)
    with m have 1: "textContent ?t \<in> set (content (fst (callToolOnAll mgr toolName args)))"
      unfolding c by force
    have "isError (fst (callTool mgr url toolName args)) = Some True"
      by (simp add: f errorResult_def)
    with m have 2: "isError (fst (callToolOnAll mgr toolName args)) = Some True"
      unfolding e by force
    from 1 2 show "textContent ?t \<in> set (content (fst (callToolOnAll mgr toolName args)))
       \<and> isError (fst (callToolOnAll mgr toolName args)) = Some True" by simp
  qed
qed

lemma remdups_snoc: "remdups (xs @ [k]) = filter (\<lambda>x. x \<noteq> k) (remdups xs) @ [k]"
  by (induction xs) auto

lemma keep_first_Cons:
  "rev (remdups (rev (k # ys))) = k # rev (remdups (rev (filter (\<lambda>x. x \<noteq> k) ys)))"
  by (simp add: remdups_snoc remdups_filter rev_filter)

lemma initializeAll_loop_keys:
  "map fst (initializeAll_loop spawn now ms ds)
     = map fst ds @ rev (remdups (rev (filter (\<lambda>k. k \<notin> set (map fst ds))
                                        (map (\<lambda>m. normalizeClusterUrl (clusterUrl m)) ms))))"
proof (induction ms arbitrary: ds)
  case Nil
  then show ?case by simp
next
  case (Cons m ms)
  let ?key = "normalizeClusterUrl (clusterUrl m)"
  let ?keys = "map (\<lambda>m. normalizeClusterUrl (clusterUrl m)) ms"
  show ?case
  proof (cases "map_of ds ?key = None")
    case False
    then have "?key \<in> set (map fst ds)" by (simp add: map_of_eq_None_iff)
    with False Cons.IH [of ds] show ?thesis by (simp add: Let_def)
  next
    case True
    then have notin: "?key \<notin> set (map fst ds)" by (simp add: map_of_eq_None_iff)
    obtain st st' where
      step: "initializeAll_loop spawn now (m # ms) ds
               = initializeAll_loop spawn now ms (AList.update ?key st' (AList.update ?key st ds))"
      using True by (simp add: Let_def)
    have keys: "map fst (AList.update ?key st' (AList.update ?key st ds)) = map fst ds @ [?key]"
      using notin by (simp add: update_keys)
    have f: "filter (\<lambda>k. k \<notin> set (map fst ds @ [?key])) ?keys
             = filter (\<lambda>x. x \<noteq> ?key) (filter (\<lambda>k. k \<notin> set (map fst ds)) ?keys)"
      by (auto intro: filter_cong)
    have "map fst (initializeAll_loop spawn now (m # ms) ds)
            = (map fst ds @ [?key])
              @ rev (remdups (rev (filter (\<lambda>k. k \<notin> set (map fst ds @ [?key])) ?keys)))"
      unfolding step using Cons.IH [of "AList.update ?key st' (AList.update ?key st ds)"]
      by (simp only: keys)
    also have "\<dots> = map fst ds
              @ rev (remdups (rev (?key # filter (\<lambda>k. k \<notin> set (map fst ds)) ?keys)))"
      unfolding f keep_first_Cons by simp
    finally show ?thesis using notin by simp
  qed
qed

lemma initializeAll_keys:
  "getClusterUrls (initializeAll spawn now \<lparr>downstreams = [], config = cfg\<rparr>)
     = rev (remdups (rev (map (\<lambda>m. normalizeClusterUrl (clusterUrl m)) (mappings cfg))))"
  by (simp add: getClusterUrls_def initializeAll_def initializeAll_loop_keys)

lemma ping_keys: "getClusterUrls (fst (ping now mgr url)) = getClusterUrls mgr"
  by (auto simp: ping_def Let_def setState_keys split: option.splits)

lemma reconnect_keys: "getClusterUrls (fst (reconnect outcome now mgr url)) = getClusterUrls mgr"
  by (auto simp: reconnect_def Let_def setState_keys split: option.splits sum.splits prod.splits)

lemma processExited_keys: "getClusterUrls (processExited key mgr) = getClusterUrls mgr"
  by (auto simp: processExited_def setState_keys split: option.splits)

lemma applyEvent_keys: "getClusterUrls (applyEvent e mgr) = getClusterUrls mgr"
  by (cases e) (simp_all add: ping_keys reconnect_keys processExited_keys)

lemma events_keys: "getClusterUrls (fold applyEvent events mgr) = getClusterUrls mgr"
  by (induction events arbitrary: mgr) (simp_all add: applyEvent_keys)

lemma connected_keys_aux:
  "\<forall>(k, s) \<in> set xs. map_of ds k = Some s \<Longrightarrow>
   map fst (filter (\<lambda>(k, state). status state = Connected \<and> client state \<noteq> None) xs)
     = filter (\<lambda>url. case map_of ds url of None \<Rightarrow> False
                     | Some state \<Rightarrow> status state = Connected \<and> client state \<noteq> None)
              (map fst xs)"
  by (induction xs) auto

lemma connected_keys:
  "distinct (getClusterUrls mgr) \<Longrightarrow>
   map fst (connectedDownstreams mgr) = filter (isConnected mgr) (getClusterUrls mgr)"
  unfolding connectedDownstreams_def getClusterUrls_def
  using connected_keys_aux [of "downstreams mgr" "downstreams mgr"]
  by (auto simp: isConnected_def [abs_def])

text \<open>
  C10: in every state that the supervisor reaches from \<open>initializeAll\<close> by pings,
  reconnections and process exits, the keys of the endpoints are the normalized URLs of
  the configured mappings in the order of their first occurrence, and, when at least one
  endpoint is connected, the content of \<open>callToolOnAll\<close> is the concatenation of the
  content of the calls on the connected endpoints taken in that order. (The result is a
  function of the state, so two runs over the same state give the same order.)
\<close>

theorem C10_fanout_order:
  "mgr = fold applyEvent events (initializeAll spawn now \<lparr>downstreams = [], config = cfg\<rparr>)
   \<and> connectedDownstreams mgr \<noteq> [] \<longrightarrow>
     getClusterUrls mgr
       = rev (remdups (rev (map (\<lambda>m. normalizeClusterUrl (clusterUrl m)) (mappings cfg))))
   \<and> content (fst (callToolOnAll mgr toolName args))
       = concat (map (\<lambda>url. content (fst (callTool mgr url toolName args)))
                     (filter (isConnected mgr) (getClusterUrls mgr)))"
proof (intro impI, elim conjE)
  assume m: "mgr = fold applyEvent events
                     (initializeAll spawn now \<lparr>downstreams = [], config = cfg\<rparr>)"
    and ne: "connectedDownstreams mgr \<noteq> []"
  have k: "getClusterUrls mgr
       = rev (remdups (rev (map (\<lambda>m. normalizeClusterUrl (clusterUrl m)) (mappings cfg))))"
    unfolding m events_keys initializeAll_keys ..
  then have d: "distinct (getClusterUrls mgr)" by simp
  have "content (fst (callToolOnAll mgr toolName args))
      = concat (map (\<lambda>(url, state). content (fst (callTool mgr url toolName args)))
                        (connectedDownstreams mgr))"
    using callToolOnAll_some [OF ne, of toolName args] by simp
  also have "\<dots> = concat (map (\<lambda>url. content (fst (callTool mgr url toolName args)))
                        (map fst (connectedDownstreams mgr)))"
    by (simp add: case_prod_unfold comp_def)
  finally show "getClusterUrls mgr
       = rev (remdups (rev (map (\<lambda>m. normalizeClusterUrl (clusterUrl m)) (mappings cfg))))
   \<and> content (fst (callToolOnAll mgr toolName args))
       = concat (map (\<lambda>url. content (fst (callTool mgr url toolName args)))
                     (filter (isConnected mgr) (getClusterUrls mgr)))"
    using k connected_keys [OF d] by simp
qed

subsection \<open>The sample deployment\<close>

lemma example_keys:
  "getClusterUrls exampleManager
     = [''https://a.example'', ''https://b.example'', ''https://c.example'']"
  by code_simp

lemma example_unknown:
  "map_of (downstreams exampleManager) (normalizeClusterUrl ''zzz.example'') = None"
  by code_simp

lemma example_a:
  "\<exists>state c. map_of (downstreams exampleManager) (normalizeClusterUrl ''A.example'') = Some state
     \<and> client state = Some c \<and> status state = Connected \<and> client_ping c = PingResolved
     \<and> consecutiveFailures state = 0
     \<and> client_callTool c ''boom'' [] = Rejected ''down''"
proof -
  have "case map_of (downstreams exampleManager) (normalizeClusterUrl ''A.example'') of
          None \<Rightarrow> False
        | Some state \<Rightarrow> status state = Connected \<and> consecutiveFailures state = 0
            \<and> (case client state of None \<Rightarrow> False
                | Some c \<Rightarrow> client_ping c = PingResolved
                     \<and> client_callTool c ''boom'' [] = Rejected ''down'')"
    by code_simp
  then show ?thesis by (auto split: option.splits)
qed

lemma example_b:
  "\<exists>state c. map_of (downstreams exampleManager) (normalizeClusterUrl ''b.example'') = Some state
     \<and> client state = Some c \<and> status state = Connected \<and> client_ping c \<noteq> PingResolved
     \<and> consecutiveFailures state = 0"
proof -
  have "case map_of (downstreams exampleManager) (normalizeClusterUrl ''b.example'') of
          None \<Rightarrow> False
        | Some state \<Rightarrow> status state = Connected \<and> consecutiveFailures state = 0
            \<and> (case client state of None \<Rightarrow> False | Some c \<Rightarrow> client_ping c = PingTimeout)"
    by code_simp
  then show ?thesis by (auto split: option.splits)
qed

lemma example_c:
  "\<exists>state. map_of (downstreams exampleManager) (normalizeClusterUrl ''c.example'') = Some state
     \<and> client state = None \<and> status state = Failed"
proof -
  have "case map_of (downstreams exampleManager) (normalizeClusterUrl ''c.example'') of
          None \<Rightarrow> False
        | Some state \<Rightarrow> status state = Failed \<and> client state = None"
    by code_simp
  then show ?thesis by (auto split: option.splits)
qed

text \<open>
  C2, as stated (the error text lists the available endpoint URLs also when the record is
  not \<open>Connected\<close>), fails: in the sample deployment the endpoint \<open>https://c.example\<close>
  is \<open>Failed\<close>, the call on it makes no client call and returns the "not connected" text,
  and that text does not contain \<open>https://b.example\<close>, which is configured.
\<close>

theorem C2_lists_urls_counterexample:
  "map_option status (map_of (downstreams exampleManager) (normalizeClusterUrl ''c.example''))
     = Some Failed
   \<and> ''https://b.example'' \<in> set (getClusterUrls exampleManager)
   \<and> fst (callTool exampleManager ''c.example'' ''kusto_query'' [])
       = errorResult (notConnectedText ''c.example'' Failed)
   \<and> snd (callTool exampleManager ''c.example'' ''kusto_query'' []) = []
   \<and> \<not> includes_str (notConnectedText ''c.example'' Failed) ''https://b.example''"
  by code_simp

text \<open>
  The amended C2 at the sample deployment: an endpoint that is not configured, and the
  endpoint whose connection failed.
\<close>

theorem C2_callTool_unavailable_witness:
  "map_of (downstreams exampleManager) (normalizeClusterUrl ''zzz.example'') = None
   \<and> callTool exampleManager ''zzz.example'' ''kusto_query'' []
       = (errorResult (unknownClusterText ''zzz.example'' (getClusterUrls exampleManager)), [])
   \<and> includes_str (unknownClusterText ''zzz.example'' (getClusterUrls exampleManager))
        ''https://b.example''
   \<and> (\<exists>state. map_of (downstreams exampleManager) (normalizeClusterUrl ''c.example'') = Some state
         \<and> client state = None \<and> status state = Failed)
   \<and> callTool exampleManager ''c.example'' ''kusto_query'' []
       = (errorResult (notConnectedText ''c.example'' Failed), [])"
proof -
  have b: "''https://b.example'' \<in> set (getClusterUrls exampleManager)"
    by (simp add: example_keys)
  from example_c obtain state where
    c: "map_of (downstreams exampleManager) (normalizeClusterUrl ''c.example'') = Some state"
      "client state = None" "status state = Failed" by blast
  have "callTool exampleManager ''c.example'' ''kusto_query'' []
       = (errorResult (notConnectedText ''c.example'' (status state)), [])"
    using C2_callTool_unavailable [of exampleManager "''c.example''" "''kusto_query''" "[]"] c
    by blast
  then show ?thesis
    using C2_callTool_unavailable [of exampleManager "''zzz.example''" "''kusto_query''" "[]"]
      example_unknown example_c b c by auto
qed

text \<open>
  C5 at the sample deployment: the failed endpoint, an endpoint whose ping resolves and
  one whose ping times out for the first time.
\<close>

theorem C5_ping_witness:
  "(\<exists>state. map_of (downstreams exampleManager) (normalizeClusterUrl ''c.example'') = Some state
         \<and> client state = None \<and> status state = Failed)
   \<and> ping ''t1'' exampleManager ''c.example'' = (exampleManager, False, [])
   \<and> fst (snd (ping ''t1'' exampleManager ''A.example''))
   \<and> map_option (\<lambda>s. (lastHeartbeat s, consecutiveFailures s, status s))
        (map_of (downstreams (fst (ping ''t1'' exampleManager ''A.example'')))
                (normalizeClusterUrl ''A.example''))
       = Some (Some ''t1'', 0, Connected)
   \<and> \<not> fst (snd (ping ''t1'' exampleManager ''b.example''))
   \<and> map_option (\<lambda>s. (consecutiveFailures s, status s))
        (map_of (downstreams (fst (ping ''t1'' exampleManager ''b.example'')))
                (normalizeClusterUrl ''b.example''))
       = Some (1, Failed)"
proof -
  from example_c have nc: "\<not> (\<exists>state c.
      map_of (downstreams exampleManager) (normalizeClusterUrl ''c.example'') = Some state
      \<and> client state = Some c \<and> status state = Connected)" by auto
  have 1: "ping ''t1'' exampleManager ''c.example'' = (exampleManager, False, [])"
    using C5_ping [of exampleManager "''c.example''" "''t1''"] nc by blast
  from example_a obtain sa ca where
    a: "map_of (downstreams exampleManager) (normalizeClusterUrl ''A.example'') = Some sa
        \<and> client sa = Some ca \<and> status sa = Connected"
      "client_ping ca = PingResolved" by blast
  have 2: "fst (snd (ping ''t1'' exampleManager ''A.example''))
     \<and> map_option (\<lambda>s. (lastHeartbeat s, consecutiveFailures s, status s))
        (map_of (downstreams (fst (ping ''t1'' exampleManager ''A.example'')))
                (normalizeClusterUrl ''A.example''))
       = Some (Some ''t1'', 0, Connected)"
    using C5_ping [of exampleManager "''A.example''" "''t1''"] a
    by (auto simp: case_prod_unfold)
  from example_b obtain sb cb where
    b: "map_of (downstreams exampleManager) (normalizeClusterUrl ''b.example'') = Some sb
        \<and> client sb = Some cb \<and> status sb = Connected"
      "client_ping cb \<noteq> PingResolved" "consecutiveFailures sb = 0" by blast
  have 3: "\<not> fst (snd (ping ''t1'' exampleManager ''b.example''))
     \<and> map_option (\<lambda>s. (consecutiveFailures s, status s))
        (map_of (downstreams (fst (ping ''t1'' exampleManager ''b.example'')))
                (normalizeClusterUrl ''b.example''))
       = Some (1, Failed)"
    using C5_ping [of exampleManager "''b.example''" "''t1''"] b
    by (auto simp: case_prod_unfold)
  from 1 2 3 example_c show ?thesis by blast
qed

lemma example_connected:
  "map fst (connectedDownstreams exampleManager) = [''https://a.example'', ''https://b.example'']"
  by code_simp

lemma example_normalized:
  "normalizeClusterUrl ''https://a.example'' = normalizeClusterUrl ''A.example''"
  by code_simp

text \<open>
  C6 at the sample deployment: with both child processes gone, with two endpoints that
  answer, and with two endpoints that reject the tool \<open>boom\<close>.
\<close>

theorem C6_callToolOnAll_witness:
  "connectedDownstreams (exampleManagerDown) = []
   \<and> callToolOnAll (exampleManagerDown) ''kusto_cluster_list'' []
       = (errorResult ''Error: No downstream MCP servers are currently connected.'', [])
   \<and> connectedDownstreams exampleManager \<noteq> []
   \<and> content (fst (callToolOnAll exampleManager ''kusto_cluster_list'' []))
       = [textContent ''https://A.example/:kusto_cluster_list'',
          textContent ''b.example:kusto_cluster_list'']
   \<and> isError (fst (callToolOnAll exampleManager ''kusto_cluster_list'' [])) = Some False
   \<and> distinct (getClusterUrls exampleManager)
   \<and> list_all (\<lambda>k. normalizeClusterUrl k = k) (getClusterUrls exampleManager)
   \<and> list_ex (\<lambda>(url, state). case client state of None \<Rightarrow> False
                                   | Some c \<Rightarrow> clientFailed c ''boom'' [])
        (connectedDownstreams exampleManager)
   \<and> textContent (callFailedText ''boom'' ''https://a.example'' ''down'')
        \<in> set (content (fst (callToolOnAll exampleManager ''boom'' [])))
   \<and> isError (fst (callToolOnAll exampleManager ''boom'' [])) = Some True"
proof -
  let ?dead = "exampleManagerDown"
  have d: "connectedDownstreams ?dead = []" by code_simp
  have 1: "callToolOnAll ?dead ''kusto_cluster_list'' []
       = (errorResult ''Error: No downstream MCP servers are currently connected.'', [])"
    using C6_callToolOnAll [of ?dead "''kusto_cluster_list''" "[]"] d by blast
  have ne: "connectedDownstreams exampleManager \<noteq> []"
    using example_connected by auto
  have ev: "concat (map (\<lambda>(url, state).
                 content (fst (callTool exampleManager url ''kusto_cluster_list'' [])))
              (connectedDownstreams exampleManager))
       = [textContent ''https://A.example/:kusto_cluster_list'',
          textContent ''b.example:kusto_cluster_list'']" by code_simp
  have ev2: "\<not> (\<exists>(url, state) \<in> set (connectedDownstreams exampleManager).
                isError (fst (callTool exampleManager url ''kusto_cluster_list'' [])) = Some True)"
    by code_simp
  have 2: "content (fst (callToolOnAll exampleManager ''kusto_cluster_list'' []))
       = [textContent ''https://A.example/:kusto_cluster_list'',
          textContent ''b.example:kusto_cluster_list'']
       \<and> isError (fst (callToolOnAll exampleManager ''kusto_cluster_list'' [])) = Some False"
    using C6_callToolOnAll [of exampleManager "''kusto_cluster_list''" "[]"] ne ev ev2 by simp
  have m: "(''https://a.example'', snd (hd (connectedDownstreams exampleManager)))
             \<in> set (connectedDownstreams exampleManager)"
    using example_connected by (cases "connectedDownstreams exampleManager") auto
  from example_a obtain sa ca where
    a: "map_of (downstreams exampleManager) (normalizeClusterUrl ''https://a.example'') = Some sa"
      "client sa = Some ca" "status sa = Connected"
      "client_callTool ca ''boom'' [] = Rejected ''down''"
    unfolding example_normalized by blast
  have 3: "textContent (callFailedText ''boom'' ''https://a.example'' ''down'')
        \<in> set (content (fst (callToolOnAll exampleManager ''boom'' [])))
     \<and> isError (fst (callToolOnAll exampleManager ''boom'' [])) = Some True"
    using C6_callToolOnAll [of exampleManager "''boom''" "[]"] ne m a by fast
  have k: "distinct (getClusterUrls exampleManager)
           \<and> list_all (\<lambda>k. normalizeClusterUrl k = k) (getClusterUrls exampleManager)"
    by code_simp
  have x: "list_ex (\<lambda>(url, state). case client state of None \<Rightarrow> False
                                   | Some c \<Rightarrow> clientFailed c ''boom'' [])
        (connectedDownstreams exampleManager)"
    using C6_callToolOnAll [of exampleManager "''boom''" "[]"] ne k 3
    by (simp add: list_all_iff list_ex_iff)
  from d 1 ne 2 3 k x show ?thesis by blast
qed

text \<open>
  C10 at the sample deployment, after a ping that times out on the second endpoint and a
  reconnection that succeeds on the third.
\<close>

theorem C10_fanout_order_witness:
  "connectedDownstreams (fold applyEvent [PingEvent ''t1'' ''b.example'',
       ReconnectEvent (ConnectResolved (exampleClient ''c2'') [] True) ''t2'' ''c.example'']
      (initializeAll exampleSpawn ''t0'' \<lparr>downstreams = [], config = exampleConfig\<rparr>)) \<noteq> []
   \<and> getClusterUrls (fold applyEvent [PingEvent ''t1'' ''b.example'',
       ReconnectEvent (ConnectResolved (exampleClient ''c2'') [] True) ''t2'' ''c.example'']
      (initializeAll exampleSpawn ''t0'' \<lparr>downstreams = [], config = exampleConfig\<rparr>))
      = [''https://a.example'', ''https://b.example'', ''https://c.example'']
   \<and> content (fst (callToolOnAll (fold applyEvent [PingEvent ''t1'' ''b.example'',
       ReconnectEvent (ConnectResolved (exampleClient ''c2'') [] True) ''t2'' ''c.example'']
      (initializeAll exampleSpawn ''t0'' \<lparr>downstreams = [], config = exampleConfig\<rparr>))
        ''kusto_cluster_list'' []))
      = [textContent ''https://A.example/:kusto_cluster_list'',
         textContent ''c2:kusto_cluster_list'']"
proof -
  let ?events = "[PingEvent ''t1'' ''b.example'',
       ReconnectEvent (ConnectResolved (exampleClient ''c2'') [] True) ''t2'' ''c.example'']"
  let ?init = "initializeAll exampleSpawn ''t0'' \<lparr>downstreams = [], config = exampleConfig\<rparr>"
  let ?mgr = "fold applyEvent ?events ?init"
  have ne: "connectedDownstreams ?mgr \<noteq> []" by code_simp
  have k: "rev (remdups (rev (map (\<lambda>m. normalizeClusterUrl (clusterUrl m))
                               (mappings exampleConfig))))
           = [''https://a.example'', ''https://b.example'', ''https://c.example'']"
    by code_simp
  have c: "concat (map (\<lambda>url. content (fst (callTool ?mgr url ''kusto_cluster_list'' [])))
             (filter (isConnected ?mgr)
                [''https://a.example'', ''https://b.example'', ''https://c.example'']))
      = [textContent ''https://A.example/:kusto_cluster_list'',
         textContent ''c2:kusto_cluster_list'']" by code_simp
  show ?thesis
    using C10_fanout_order [of ?mgr ?events exampleSpawn "''t0''" exampleConfig
        "''kusto_cluster_list''" "[]"] ne k c
    by simp
qed

text \<open>
  The supervisor normalizes again the URL it is called with, also when it is a key of
  its own map. The endpoint configured as \<open>a /\<close> is stored under \<open>https://a \<close> and is
  connected, but a call or a ping with that key looks for \<open>https://a\<close> and finds
  nothing.
\<close>

lemma renormalized_key_lost:
  "getClusterUrls exampleBlankManager = [''https://a '']
   \<and> isConnected exampleBlankManager ''https://a ''
   \<and> callTool exampleBlankManager ''https://a '' ''kusto_cluster_list'' []
       = (errorResult (unknownClusterText ''https://a '' [''https://a '']), [])
   \<and> \<not> fst (snd (ping ''t1'' exampleBlankManager ''https://a ''))
   \<and> snd (snd (ping ''t1'' exampleBlankManager ''https://a '')) = []"
  by code_simp

section \<open>The dispatch router\<close>

lemma strip_scheme_nonempty: "hasScheme p \<Longrightarrow> stripTrailingSlashes p \<noteq> []"
proof (cases "hasScheme (stripTrailingSlashes p)")
  case True
  then show ?thesis using hasScheme_hd by blast
next
  case False
  assume "hasScheme p"
  with False show ?thesis using strip_scheme_lost by fastforce
qed

lemma normalize_nonempty: "normalizeClusterUrl x \<noteq> []"
  using normalize_as_strip [of x] strip_scheme_nonempty by metis

lemma find_eq_member: "k \<in> set xs \<Longrightarrow> find (\<lambda>url. url = k) xs = Some k"
  by (induction xs) auto

lemma routeFanOut_forwarded:
  "forwardedArgs (routeFanOut mgr toolName args) = None
   \<or> forwardedArgs (routeFanOut mgr toolName args) = Some (AList.delete ''cluster'' args)"
  by (auto simp: routeFanOut_def Let_def split: option.splits json.splits)

lemma routeToCluster_forwarded:
  "forwardedArgs (routeToCluster mgr toolName args) = None
   \<or> forwardedArgs (routeToCluster mgr toolName args) = Some args"
  by (auto simp: routeToCluster_def Let_def split: option.splits json.splits)

lemma routeFanOut_all:
  "\<not> truthy (map_of args ''cluster'') \<Longrightarrow>
   routeFanOut mgr toolName args = CallToolOnAll toolName (AList.delete ''cluster'' args)"
  by (simp add: routeFanOut_def Let_def)

lemma routeFanOut_one:
  "map_of args ''cluster'' = Some (JStr c) \<Longrightarrow> c \<noteq> [] \<Longrightarrow>
   normalizeClusterUrl c \<in> set (getClusterUrls mgr) \<Longrightarrow>
   routeFanOut mgr toolName args
     = CallTool (normalizeClusterUrl c) toolName (AList.delete ''cluster'' args)"
  by (simp add: routeFanOut_def Let_def find_eq_member normalize_nonempty)

lemma routeToCluster_one:
  "map_of args ''cluster'' = Some (JStr c) \<Longrightarrow> c \<noteq> [] \<Longrightarrow>
   normalizeClusterUrl c \<in> set (getClusterUrls mgr) \<Longrightarrow>
   routeToCluster mgr toolName args = CallTool (normalizeClusterUrl c) toolName args"
  by (simp add: routeToCluster_def Let_def find_eq_member normalize_nonempty)

lemma delete_cluster_filter:
  "AList.delete ''cluster'' args = filter (\<lambda>(k, v). k \<noteq> ''cluster'') args"
  by (simp add: AList.delete_eq case_prod_unfold eq_commute)

text \<open>
  C4: for a tool that is in the fan-out set and not in the routable set, whatever
  \<open>routeCall\<close> hands to the supervisor is the caller's arguments without the pairs whose
  key is \<open>cluster\<close>, all other pairs unchanged and in their order: it calls all
  endpoints with them when \<open>cluster\<close> is missing or falsy, and one endpoint when
  \<open>cluster\<close> is a non-empty string that normalizes to a configured URL. For a tool in the
  routable set, whatever \<open>routeCall\<close> hands to the supervisor is the caller's arguments
  unchanged, \<open>cluster\<close> included.
\<close>

theorem C4_forwarded_arguments:
  "(toolName \<in> fanOutTools router \<and> toolName \<notin> routableTools router \<longrightarrow>
      (forwardedArgs (routeCall mgr router toolName args) = None
       \<or> forwardedArgs (routeCall mgr router toolName args)
            = Some (filter (\<lambda>(k, v). k \<noteq> ''cluster'') args))
      \<and> (\<not> truthy (map_of args ''cluster'') \<longrightarrow>
            routeCall mgr router toolName args
              = CallToolOnAll toolName (filter (\<lambda>(k, v). k \<noteq> ''cluster'') args))
      \<and> (\<forall>c. map_of args ''cluster'' = Some (JStr c) \<and> c \<noteq> []
               \<and> normalizeClusterUrl c \<in> set (getClusterUrls mgr) \<longrightarrow>
            routeCall mgr router toolName args
              = CallTool (normalizeClusterUrl c) toolName
                  (filter (\<lambda>(k, v). k \<noteq> ''cluster'') args)))
   \<and> (toolName \<in> routableTools router \<longrightarrow>
      (forwardedArgs (routeCall mgr router toolName args) = None
       \<or> forwardedArgs (routeCall mgr router toolName args) = Some args)
      \<and> (\<forall>c. map_of args ''cluster'' = Some (JStr c) \<and> c \<noteq> []
               \<and> normalizeClusterUrl c \<in> set (getClusterUrls mgr) \<longrightarrow>
            routeCall mgr router toolName args
              = CallTool (normalizeClusterUrl c) toolName args))"
proof (intro conjI impI)
  assume f: "toolName \<in> fanOutTools router \<and> toolName \<notin> routableTools router"
  then have r: "routeCall mgr router toolName args = routeFanOut mgr toolName args"
    by (simp add: routeCall_def Let_def)
  show "forwardedArgs (routeCall mgr router toolName args) = None
       \<or> forwardedArgs (routeCall mgr router toolName args)
            = Some (filter (\<lambda>(k, v). k \<noteq> ''cluster'') args)"
    unfolding r using routeFanOut_forwarded [of mgr toolName args]
    by (simp only: delete_cluster_filter)
  show "routeCall mgr router toolName args
              = CallToolOnAll toolName (filter (\<lambda>(k, v). k \<noteq> ''cluster'') args)"
    if "\<not> truthy (map_of args ''cluster'')"
    unfolding r using routeFanOut_all [OF that] by (simp only: delete_cluster_filter)
  show "\<forall>c. map_of args ''cluster'' = Some (JStr c) \<and> c \<noteq> []
               \<and> normalizeClusterUrl c \<in> set (getClusterUrls mgr) \<longrightarrow>
            routeCall mgr router toolName args
              = CallTool (normalizeClusterUrl c) toolName
                  (filter (\<lambda>(k, v). k \<noteq> ''cluster'') args)"
    unfolding r using routeFanOut_one [of args _ mgr toolName]
    by (simp only: delete_cluster_filter) blast
next
  assume f: "toolName \<in> routableTools router"
  then have r: "routeCall mgr router toolName args = routeToCluster mgr toolName args"
    by (simp add: routeCall_def Let_def)
  show "forwardedArgs (routeCall mgr router toolName args) = None
       \<or> forwardedArgs (routeCall mgr router toolName args) = Some args"
    unfolding r by (rule routeToCluster_forwarded)
  show "\<forall>c. map_of args ''cluster'' = Some (JStr c) \<and> c \<noteq> []
               \<and> normalizeClusterUrl c \<in> set (getClusterUrls mgr) \<longrightarrow>
            routeCall mgr router toolName args
              = CallTool (normalizeClusterUrl c) toolName args"
    unfolding r using routeToCluster_one [of args _ mgr toolName] by blast
qed

lemma unknownToolText_names_tool: "includes_str (unknownToolText toolName names) (quoted toolName)"
  unfolding unknownToolText_def
  using includes_str_middle [of "''Error: Unknown tool ''" "quoted toolName"
      "''. Available tools: '' @ join '', '' names"] by simp

lemma unknownToolText_lists: "t \<in> set names \<Longrightarrow> includes_str (unknownToolText toolName names) t"
  unfolding unknownToolText_def
  using includes_str_append_left [OF join_includes, of t names
      "''Error: Unknown tool '' @ quoted toolName @ ''. Available tools: ''" "'', ''"]
  by simp

text \<open>
  C7: for a tool name that is in neither set, \<open>routeCall\<close> does what route-to-one does
  when the \<open>cluster\<close> argument is present, and so calls the one endpoint it names when
  that endpoint is configured; when the argument is absent the result is the textual
  error with \<open>isError = true\<close> that names the tool and lists the names of the merged
  tools, and the supervisor is not called. "Present" is the truthiness test of the
  source: an argument that is \<open>null\<close>, \<open>false\<close>, \<open>0\<close> or the empty string counts as
  absent.
\<close>

theorem C7_unknown_tool:
  "toolName \<notin> routableTools router \<and> toolName \<notin> fanOutTools router \<longrightarrow>
     (truthy (map_of args ''cluster'') \<longrightarrow>
        routeCall mgr router toolName args = routeToCluster mgr toolName args
        \<and> (\<forall>c. map_of args ''cluster'' = Some (JStr c)
                 \<and> normalizeClusterUrl c \<in> set (getClusterUrls mgr) \<longrightarrow>
              routeCall mgr router toolName args
                = CallTool (normalizeClusterUrl c) toolName args))
   \<and> (\<not> truthy (map_of args ''cluster'') \<longrightarrow>
        routeCall mgr router toolName args
          = Reply (errorResult (unknownToolText toolName (map name (mergedTools router))))
        \<and> perform mgr (routeCall mgr router toolName args)
          = Some (errorResult (unknownToolText toolName (map name (mergedTools router))), [])
        \<and> includes_str (unknownToolText toolName (map name (mergedTools router)))
             (quoted toolName)
        \<and> (\<forall>t \<in> set (mergedTools router).
              includes_str (unknownToolText toolName (map name (mergedTools router))) (name t)))"
proof (intro impI conjI)
  assume u: "toolName \<notin> routableTools router \<and> toolName \<notin> fanOutTools router"
  show r: "routeCall mgr router toolName args = routeToCluster mgr toolName args"
    if "truthy (map_of args ''cluster'')"
    using u that by (simp add: routeCall_def Let_def)
  show "\<forall>c. map_of args ''cluster'' = Some (JStr c)
                 \<and> normalizeClusterUrl c \<in> set (getClusterUrls mgr) \<longrightarrow>
              routeCall mgr router toolName args
                = CallTool (normalizeClusterUrl c) toolName args"
    if t: "truthy (map_of args ''cluster'')"
  proof (intro allI impI)
    fix c assume c: "map_of args ''cluster'' = Some (JStr c)
                 \<and> normalizeClusterUrl c \<in> set (getClusterUrls mgr)"
    with t have "c \<noteq> []" by auto
    with c show "routeCall mgr router toolName args
                = CallTool (normalizeClusterUrl c) toolName args"
      unfolding r [OF t] by (simp add: routeToCluster_one)
  qed
  show e: "routeCall mgr router toolName args
          = Reply (errorResult (unknownToolText toolName (map name (mergedTools router))))"
    if "\<not> truthy (map_of args ''cluster'')"
    using u that by (simp add: routeCall_def Let_def)
  show "perform mgr (routeCall mgr router toolName args)
          = Some (errorResult (unknownToolText toolName (map name (mergedTools router))), [])"
    if "\<not> truthy (map_of args ''cluster'')"
    unfolding e [OF that] by (simp add: perform_def)
  show "includes_str (unknownToolText toolName (map name (mergedTools router)))
             (quoted toolName)"
    by (rule unknownToolText_names_tool)
  show "\<forall>t \<in> set (mergedTools router).
              includes_str (unknownToolText toolName (map name (mergedTools router))) (name t)"
    by (simp add: unknownToolText_lists)
qed

subsection \<open>The router of the sample deployment\<close>

lemma exampleRouter_sets:
  "routableTools exampleRouter = {''kusto_query'', ''kusto_sample''}
   \<and> fanOutTools exampleRouter = {''kusto_cluster_list''}
   \<and> map name (mergedTools exampleRouter)
       = [''kusto_query'', ''kusto_cluster_list'', ''kusto_sample'']"
  by code_simp

lemma example_cluster_key:
  "normalizeClusterUrl ''https://A.EXAMPLE/'' = ''https://a.example''"
  by code_simp

text \<open>
  C4 at the sample deployment: the fan-out tool without and with a \<open>cluster\<close>
  argument, and the routable tool.
\<close>

theorem C4_forwarded_arguments_witness:
  "''kusto_cluster_list'' \<in> fanOutTools exampleRouter
   \<and> ''kusto_cluster_list'' \<notin> routableTools exampleRouter
   \<and> routeCall exampleManager exampleRouter ''kusto_cluster_list'' [(''subscriptionId'', JStr ''s'')]
       = CallToolOnAll ''kusto_cluster_list'' [(''subscriptionId'', JStr ''s'')]
   \<and> routeCall exampleManager exampleRouter ''kusto_cluster_list'' exampleListArgs
       = CallTool ''https://a.example'' ''kusto_cluster_list'' [(''subscriptionId'', JStr ''s'')]
   \<and> ''kusto_query'' \<in> routableTools exampleRouter
   \<and> routeCall exampleManager exampleRouter ''kusto_query'' exampleArgs
       = CallTool ''https://a.example'' ''kusto_query'' exampleArgs"
proof -
  have f: "''kusto_cluster_list'' \<in> fanOutTools exampleRouter
           \<and> ''kusto_cluster_list'' \<notin> routableTools exampleRouter"
    using exampleRouter_sets by simp
  have r: "''kusto_query'' \<in> routableTools exampleRouter"
    using exampleRouter_sets by simp
  have k: "normalizeClusterUrl ''https://A.EXAMPLE/'' \<in> set (getClusterUrls exampleManager)"
    by code_simp
  have n: "\<not> truthy (map_of [(''subscriptionId'', JStr ''s'')] ''cluster'')" by simp
  have l: "map_of exampleListArgs ''cluster'' = Some (JStr ''https://A.EXAMPLE/'')
           \<and> ''https://A.EXAMPLE/'' \<noteq> []"
    by (simp add: exampleListArgs_def)
  have a: "map_of exampleArgs ''cluster'' = Some (JStr ''https://A.EXAMPLE/'')
           \<and> ''https://A.EXAMPLE/'' \<noteq> []"
    by (simp add: exampleArgs_def)
  have 1: "routeCall exampleManager exampleRouter ''kusto_cluster_list''
             [(''subscriptionId'', JStr ''s'')]
       = CallToolOnAll ''kusto_cluster_list'' [(''subscriptionId'', JStr ''s'')]"
    using C4_forwarded_arguments [of "''kusto_cluster_list''" exampleRouter exampleManager
        "[(''subscriptionId'', JStr ''s'')]"] f n by simp
  have 2: "routeCall exampleManager exampleRouter ''kusto_cluster_list'' exampleListArgs
       = CallTool ''https://a.example'' ''kusto_cluster_list'' [(''subscriptionId'', JStr ''s'')]"
    using C4_forwarded_arguments [of "''kusto_cluster_list''" exampleRouter exampleManager
        exampleListArgs] f l k
    by (simp add: example_cluster_key exampleListArgs_def)
  have 3: "routeCall exampleManager exampleRouter ''kusto_query'' exampleArgs
       = CallTool ''https://a.example'' ''kusto_query'' exampleArgs"
    using C4_forwarded_arguments [of "''kusto_query''" exampleRouter exampleManager
        exampleArgs] r a k
    by (simp add: example_cluster_key)
  from f r 1 2 3 show ?thesis by blast
qed

text \<open>
  C7 at the sample deployment: the unknown tool \<open>mystery\<close> with a configured cluster
  and without arguments.
\<close>

theorem C7_unknown_tool_witness:
  "''mystery'' \<notin> routableTools exampleRouter \<and> ''mystery'' \<notin> fanOutTools exampleRouter
   \<and> truthy (map_of exampleArgs ''cluster'')
   \<and> routeCall exampleManager exampleRouter ''mystery'' exampleArgs
       = CallTool ''https://a.example'' ''mystery'' exampleArgs
   \<and> \<not> truthy (map_of [] ''cluster'')
   \<and> perform exampleManager (routeCall exampleManager exampleRouter ''mystery'' [])
       = Some (errorResult (unknownToolText ''mystery''
                 [''kusto_query'', ''kusto_cluster_list'', ''kusto_sample'']), [])
   \<and> includes_str (unknownToolText ''mystery''
                 [''kusto_query'', ''kusto_cluster_list'', ''kusto_sample'']) ''kusto_cluster_list''"
proof -
  have u: "''mystery'' \<notin> routableTools exampleRouter \<and> ''mystery'' \<notin> fanOutTools exampleRouter"
    using exampleRouter_sets by simp
  have k: "normalizeClusterUrl ''https://A.EXAMPLE/'' \<in> set (getClusterUrls exampleManager)"
    by code_simp
  have a: "map_of exampleArgs ''cluster'' = Some (JStr ''https://A.EXAMPLE/'')"
    by (simp add: exampleArgs_def)
  then have t: "truthy (map_of exampleArgs ''cluster'')" by simp
  have 1: "routeCall exampleManager exampleRouter ''mystery'' exampleArgs
       = CallTool ''https://a.example'' ''mystery'' exampleArgs"
  proof -
    have "routeCall exampleManager exampleRouter ''mystery'' exampleArgs
       = CallTool (normalizeClusterUrl ''https://A.EXAMPLE/'') ''mystery'' exampleArgs"
      using C7_unknown_tool [of "''mystery''" exampleRouter exampleArgs exampleManager] u t a k
      by blast
    then show ?thesis by (simp only: example_cluster_key)
  qed
  have n: "\<not> truthy (map_of [] ''cluster'')" by simp
  have names: "map name (mergedTools exampleRouter)
       = [''kusto_query'', ''kusto_cluster_list'', ''kusto_sample'']"
    using exampleRouter_sets by simp
  have 2: "perform exampleManager (routeCall exampleManager exampleRouter ''mystery'' [])
       = Some (errorResult (unknownToolText ''mystery''
                 [''kusto_query'', ''kusto_cluster_list'', ''kusto_sample'']), [])"
  proof -
    have "perform exampleManager (routeCall exampleManager exampleRouter ''mystery'' [])
       = Some (errorResult (unknownToolText ''mystery''
                 (map name (mergedTools exampleRouter))), [])"
      using C7_unknown_tool [of "''mystery''" exampleRouter "[]" exampleManager] u n by blast
    then show ?thesis by (simp only: names)
  qed
  have 3: "includes_str (unknownToolText ''mystery''
                 [''kusto_query'', ''kusto_cluster_list'', ''kusto_sample'']) ''kusto_cluster_list''"
    by (simp add: unknownToolText_lists)
  from u t 1 n 2 3 show ?thesis by blast
qed

section \<open>Schema rewriting in the store\<close>

text \<open>
  For each of the four shapes of a source schema (with or without a properties object,
  with or without a required array) the rewriting is computed in full: the store it
  returns is the old store followed by the new objects.
\<close>

lemmas store_defs = structuredClone_def cloneRef_def alloc_def lookup_def
            ensureProperties_def ensureRequired_def setProperty_def getProperties_def getArray_def

lemma upd_app0: "(h @ x # xs)[length h := v] = h @ v # xs"
  by (simp add: list_update_append)

lemma upd_app1: "(h @ x # y # xs)[Suc (length h) := v] = h @ x # v # xs"
  by (simp add: list_update_append)

lemma upd_app2: "(h @ x # y # z # xs)[Suc (Suc (length h)) := v] = h @ x # y # v # xs"
  by (simp add: list_update_append)

lemma enhance_NN:
  assumes "inputSchema tool < length h" "h ! inputSchema tool = SchemaObj None None ad"
  shows "enhanceRoutableTool h tool urls
     = Some (\<lparr>name = name tool, description = routedDescription (description tool),
              inputSchema = length h\<rparr>,
             h @ [SchemaObj (Some (Suc (length h))) (Some (Suc (Suc (length h)))) ad,
                  PropertiesObj [(''cluster'', clusterPropOf urls [])],
                  ArrayObj [''cluster'']])"
  using assms
  by (simp add: enhanceRoutableTool_def store_defs clusterPropOf_def routedDescription_def
      nth_append Let_def upd_app0 upd_app1 upd_app2)

lemma enhance_SN:
  assumes "inputSchema tool < length h" "h ! inputSchema tool = SchemaObj (Some pa) None ad"
    "pa < length h" "h ! pa = PropertiesObj ps"
  shows "enhanceRoutableTool h tool urls
     = Some (\<lparr>name = name tool, description = routedDescription (description tool),
              inputSchema = Suc (length h)\<rparr>,
             h @ [PropertiesObj (AList.update ''cluster'' (clusterPropOf urls ps) ps),
                  SchemaObj (Some (length h)) (Some (Suc (Suc (length h)))) ad,
                  ArrayObj [''cluster'']])"
  using assms
  by (simp add: enhanceRoutableTool_def store_defs clusterPropOf_def routedDescription_def
      nth_append Let_def upd_app0 upd_app1 upd_app2)

lemma enhance_NS:
  assumes "inputSchema tool < length h" "h ! inputSchema tool = SchemaObj None (Some ra) ad"
    "ra < length h" "h ! ra = ArrayObj rs"
  shows "enhanceRoutableTool h tool urls
     = Some (\<lparr>name = name tool, description = routedDescription (description tool),
              inputSchema = Suc (length h)\<rparr>,
             h @ [ArrayObj (withCluster rs),
                  SchemaObj (Some (Suc (Suc (length h)))) (Some (length h)) ad,
                  PropertiesObj [(''cluster'', clusterPropOf urls [])]])"
  using assms
  by (simp add: enhanceRoutableTool_def store_defs clusterPropOf_def routedDescription_def
      withCluster_def nth_append Let_def upd_app0 upd_app1 upd_app2)

lemma enhance_SS:
  assumes "inputSchema tool < length h" "h ! inputSchema tool = SchemaObj (Some pa) (Some ra) ad"
    "pa < length h" "h ! pa = PropertiesObj ps" "ra < length h" "h ! ra = ArrayObj rs"
  shows "enhanceRoutableTool h tool urls
     = Some (\<lparr>name = name tool, description = routedDescription (description tool),
              inputSchema = Suc (Suc (length h))\<rparr>,
             h @ [PropertiesObj (AList.update ''cluster'' (clusterPropOf urls ps) ps),
                  ArrayObj (withCluster rs),
                  SchemaObj (Some (length h)) (Some (Suc (length h))) ad])"
  using assms
  by (simp add: enhanceRoutableTool_def store_defs clusterPropOf_def routedDescription_def
      withCluster_def nth_append Let_def upd_app0 upd_app1 upd_app2)

lemma fanOut_NN:
  assumes "inputSchema tool < length h" "h ! inputSchema tool = SchemaObj None None ad"
  shows "enhanceFanOutTool h tool urls
     = Some (\<lparr>name = name tool, description = fanOutDescription (description tool),
              inputSchema = length h\<rparr>,
             h @ [SchemaObj (Some (Suc (length h))) None ad,
                  PropertiesObj [(''cluster'', fanOutClusterProp urls)]])"
  using assms
  by (simp add: enhanceFanOutTool_def store_defs fanOutClusterProp_def fanOutDescription_def
      nth_append Let_def upd_app0 upd_app1 upd_app2)

lemma fanOut_SN:
  assumes "inputSchema tool < length h" "h ! inputSchema tool = SchemaObj (Some pa) None ad"
    "pa < length h" "h ! pa = PropertiesObj ps"
  shows "enhanceFanOutTool h tool urls
     = Some (\<lparr>name = name tool, description = fanOutDescription (description tool),
              inputSchema = Suc (length h)\<rparr>,
             h @ [PropertiesObj (AList.update ''cluster'' (fanOutClusterProp urls) ps),
                  SchemaObj (Some (length h)) None ad])"
  using assms
  by (simp add: enhanceFanOutTool_def store_defs fanOutClusterProp_def fanOutDescription_def
      nth_append Let_def upd_app0 upd_app1 upd_app2)

lemma fanOut_NS:
  assumes "inputSchema tool < length h" "h ! inputSchema tool = SchemaObj None (Some ra) ad"
    "ra < length h" "h ! ra = ArrayObj rs"
  shows "enhanceFanOutTool h tool urls
     = Some (\<lparr>name = name tool, description = fanOutDescription (description tool),
              inputSchema = Suc (length h)\<rparr>,
             h @ [ArrayObj rs,
                  SchemaObj (Some (Suc (Suc (length h)))) (Some (length h)) ad,
                  PropertiesObj [(''cluster'', fanOutClusterProp urls)]])"
  using assms
  by (simp add: enhanceFanOutTool_def store_defs fanOutClusterProp_def fanOutDescription_def
      nth_append Let_def upd_app0 upd_app1 upd_app2)

lemma fanOut_SS:
  assumes "inputSchema tool < length h" "h ! inputSchema tool = SchemaObj (Some pa) (Some ra) ad"
    "pa < length h" "h ! pa = PropertiesObj ps" "ra < length h" "h ! ra = ArrayObj rs"
  shows "enhanceFanOutTool h tool urls
     = Some (\<lparr>name = name tool, description = fanOutDescription (description tool),
              inputSchema = Suc (Suc (length h))\<rparr>,
             h @ [PropertiesObj (AList.update ''cluster'' (fanOutClusterProp urls) ps),
                  ArrayObj rs,
                  SchemaObj (Some (length h)) (Some (Suc (length h))) ad])"
  using assms
  by (simp add: enhanceFanOutTool_def store_defs fanOutClusterProp_def fanOutDescription_def
      nth_append Let_def upd_app0 upd_app1 upd_app2)

text \<open>What a readable schema looks like in the store.\<close>

lemma readSchema_shape:
  assumes "readSchema h a = Some s"
  shows "a < length h \<and> (\<exists>p r. h ! a = SchemaObj p r (additionalProperties s)
           \<and> (case p of None \<Rightarrow> properties s = None
               | Some pa \<Rightarrow> pa < length h
                   \<and> (\<exists>ps. h ! pa = PropertiesObj ps \<and> properties s = Some ps))
           \<and> (case r of None \<Rightarrow> required s = None
               | Some ra \<Rightarrow> ra < length h
                   \<and> (\<exists>rs. h ! ra = ArrayObj rs \<and> required s = Some rs)))"
  using assms
  by (auto simp: readSchema_def lookup_def getProperties_def getArray_def
      split: if_splits obj.splits option.splits)

lemma readSchema_append:
  assumes "readSchema h a = Some s"
  shows "readSchema (h @ ys) a = Some s"
  using readSchema_shape [OF assms] assms
  by (auto simp: readSchema_def lookup_def getProperties_def getArray_def nth_append
      split: option.splits)

lemma enhanceRoutableTool_result:
  assumes "readSchema h (inputSchema tool) = Some s"
  shows "\<exists>schema ys p' r'. enhanceRoutableTool h tool urls
            = Some (\<lparr>name = name tool, description = routedDescription (description tool),
                     inputSchema = schema\<rparr>, h @ ys)
          \<and> length h \<le> schema
          \<and> lookup (h @ ys) schema = Some (SchemaObj (Some p') (Some r') (additionalProperties s))
          \<and> length h \<le> p' \<and> length h \<le> r'
          \<and> readSchema (h @ ys) schema
              = Some \<lparr>properties = Some (AList.update ''cluster''
                                          (clusterPropOf urls (propsOf s)) (propsOf s)),
                      required = Some (withCluster (requiredOf s)),
                      additionalProperties = additionalProperties s\<rparr>"
proof -
  from readSchema_shape [OF assms] obtain p r where
    o: "inputSchema tool < length h" "h ! inputSchema tool = SchemaObj p r (additionalProperties s)"
     "case p of None \<Rightarrow> properties s = None
               | Some pa \<Rightarrow> pa < length h
                   \<and> (\<exists>ps. h ! pa = PropertiesObj ps \<and> properties s = Some ps)"
     "case r of None \<Rightarrow> required s = None
               | Some ra \<Rightarrow> ra < length h
                   \<and> (\<exists>rs. h ! ra = ArrayObj rs \<and> required s = Some rs)"
    by blast
  show ?thesis
  proof (cases p)
    case None
    note pn = this
    show ?thesis
    proof (cases r)
      case None
      with pn o have e: "properties s = None" "required s = None" by auto
      show ?thesis
        apply (rule exI [of _ "length h"])
        apply (subst enhance_NN [OF o(1) o(2) [unfolded pn None]])
        apply (simp add: readSchema_def lookup_def getProperties_def getArray_def nth_append
            propsOf_def requiredOf_def e withCluster_def)
        done
    next
      case (Some ra)
      with pn o obtain rs where e: "properties s = None" "required s = Some rs"
        "ra < length h" "h ! ra = ArrayObj rs" by auto
      show ?thesis
        apply (rule exI [of _ "Suc (length h)"])
        apply (subst enhance_NS [OF o(1) o(2) [unfolded pn Some] e(3) e(4)])
        apply (simp add: readSchema_def lookup_def getProperties_def getArray_def nth_append
            propsOf_def requiredOf_def e)
        done
    qed
  next
    case (Some pa)
    note psome = this
    with o obtain ps where e1: "properties s = Some ps" "pa < length h" "h ! pa = PropertiesObj ps"
      by auto
    show ?thesis
    proof (cases r)
      case None
      with o have e: "required s = None" by auto
      show ?thesis
        apply (rule exI [of _ "Suc (length h)"])
        apply (subst enhance_SN [OF o(1) o(2) [unfolded psome None] e1(2) e1(3)])
        apply (simp add: readSchema_def lookup_def getProperties_def getArray_def nth_append
            propsOf_def requiredOf_def e e1 withCluster_def)
        done
    next
      case (Some ra)
      with o obtain rs where e: "required s = Some rs"
        "ra < length h" "h ! ra = ArrayObj rs" by auto
      show ?thesis
        apply (rule exI [of _ "Suc (Suc (length h))"])
        apply (subst enhance_SS [OF o(1) o(2) [unfolded psome Some] e1(2) e1(3) e(2) e(3)])
        apply (simp add: readSchema_def lookup_def getProperties_def getArray_def nth_append
            propsOf_def requiredOf_def e e1)
        done
    qed
  qed
qed

lemma enhanceFanOutTool_result:
  assumes "readSchema h (inputSchema tool) = Some s"
  shows "\<exists>schema ys. enhanceFanOutTool h tool urls
            = Some (\<lparr>name = name tool, description = fanOutDescription (description tool),
                     inputSchema = schema\<rparr>, h @ ys)
          \<and> length h \<le> schema
          \<and> readSchema (h @ ys) schema
              = Some \<lparr>properties = Some (AList.update ''cluster''
                                          (fanOutClusterProp urls) (propsOf s)),
                      required = required s,
                      additionalProperties = additionalProperties s\<rparr>"
proof -
  from readSchema_shape [OF assms] obtain p r where
    o: "inputSchema tool < length h" "h ! inputSchema tool = SchemaObj p r (additionalProperties s)"
     "case p of None \<Rightarrow> properties s = None
               | Some pa \<Rightarrow> pa < length h
                   \<and> (\<exists>ps. h ! pa = PropertiesObj ps \<and> properties s = Some ps)"
     "case r of None \<Rightarrow> required s = None
               | Some ra \<Rightarrow> ra < length h
                   \<and> (\<exists>rs. h ! ra = ArrayObj rs \<and> required s = Some rs)"
    by blast
  show ?thesis
  proof (cases p)
    case None
    note pn = this
    show ?thesis
    proof (cases r)
      case None
      with pn o have e: "properties s = None" "required s = None" by auto
      show ?thesis
        apply (rule exI [of _ "length h"])
        apply (subst fanOut_NN [OF o(1) o(2) [unfolded pn None]])
        apply (simp add: readSchema_def lookup_def getProperties_def getArray_def nth_append
            propsOf_def e)
        done
    next
      case (Some ra)
      with pn o obtain rs where e: "properties s = None" "required s = Some rs"
        "ra < length h" "h ! ra = ArrayObj rs" by auto
      show ?thesis
        apply (rule exI [of _ "Suc (length h)"])
        apply (subst fanOut_NS [OF o(1) o(2) [unfolded pn Some] e(3) e(4)])
        apply (simp add: readSchema_def lookup_def getProperties_def getArray_def nth_append
            propsOf_def e)
        done
    qed
  next
    case (Some pa)
    note psome = this
    with o obtain ps where e1: "properties s = Some ps" "pa < length h" "h ! pa = PropertiesObj ps"
      by auto
    show ?thesis
    proof (cases r)
      case None
      with o have e: "required s = None" by auto
      show ?thesis
        apply (rule exI [of _ "Suc (length h)"])
        apply (subst fanOut_SN [OF o(1) o(2) [unfolded psome None] e1(2) e1(3)])
        apply (simp add: readSchema_def lookup_def getProperties_def getArray_def nth_append
            propsOf_def e e1)
        done
    next
      case (Some ra)
      with o obtain rs where e: "required s = Some rs"
        "ra < length h" "h ! ra = ArrayObj rs" by auto
      show ?thesis
        apply (rule exI [of _ "Suc (Suc (length h))"])
        apply (subst fanOut_SS [OF o(1) o(2) [unfolded psome Some] e1(2) e1(3) e(2) e(3)])
        apply (simp add: readSchema_def lookup_def getProperties_def getArray_def nth_append
            propsOf_def e e1)
        done
    qed
  qed
qed

lemma hasClusterProperty_total:
  "readSchema h (inputSchema tool) = Some s \<Longrightarrow>
   hasClusterProperty h tool = Some (map_of (propsOf s) ''cluster'' \<noteq> None)"
  by (simp add: hasClusterProperty_def propsOf_def split: option.splits)

lemma classify_result:
  assumes "\<forall>t \<in> set ts. readSchema h (inputSchema t) \<noteq> None"
  shows "classify h ts (R, F)
     = Some (R \<union> {name t | t. t \<in> set ts \<and> declaresCluster h t},
             F \<union> {name t | t. t \<in> set ts \<and> \<not> declaresCluster h t})"
  using assms
proof (induction ts arbitrary: R F)
  case Nil
  then show ?case by simp
next
  case (Cons t ts)
  then obtain s where s: "readSchema h (inputSchema t) = Some s" by auto
  have d: "declaresCluster h t = (map_of (propsOf s) ''cluster'' \<noteq> None)"
    by (simp add: declaresCluster_def s)
  show ?case
  proof (cases "declaresCluster h t")
    case True
    then have "classify h (t # ts) (R, F) = classify h ts (insert (name t) R, F)"
      using hasClusterProperty_total [OF s] d by simp
    also have "\<dots> = Some (insert (name t) R \<union> {name t | t. t \<in> set ts \<and> declaresCluster h t},
             F \<union> {name t | t. t \<in> set ts \<and> \<not> declaresCluster h t})"
      using Cons by simp
    finally show ?thesis using True by auto
  next
    case False
    then have "classify h (t # ts) (R, F) = classify h ts (R, insert (name t) F)"
      using hasClusterProperty_total [OF s] d by simp
    also have "\<dots> = Some (R \<union> {name t | t. t \<in> set ts \<and> declaresCluster h t},
             insert (name t) F \<union> {name t | t. t \<in> set ts \<and> \<not> declaresCluster h t})"
      using Cons by simp
    finally show ?thesis using False by auto
  qed
qed

lemma enhanceAll_result:
  assumes "\<forall>t \<in> set ts. readSchema h (inputSchema t) \<noteq> None"
  shows "\<exists>ts' ys. enhanceAll h R urls ts = Some (ts', h @ ys) \<and> map name ts' = map name ts"
  using assms
proof (induction ts arbitrary: h)
  case Nil
  then show ?case by simp
next
  case (Cons t ts)
  then obtain s where s: "readSchema h (inputSchema t) = Some s" by auto
  obtain t' ys where
    1: "(if name t \<in> R then enhanceRoutableTool h t urls else enhanceFanOutTool h t urls)
          = Some (t', h @ ys)" "name t' = name t"
  proof (cases "name t \<in> R")
    case True
    from enhanceRoutableTool_result [OF s, of urls] obtain schema ys where
      "enhanceRoutableTool h t urls
         = Some (\<lparr>name = name t, description = routedDescription (description t),
                  inputSchema = schema\<rparr>, h @ ys)" by blast
    with True that show ?thesis by simp
  next
    case False
    from enhanceFanOutTool_result [OF s, of urls] obtain schema ys where
      "enhanceFanOutTool h t urls
         = Some (\<lparr>name = name t, description = fanOutDescription (description t),
                  inputSchema = schema\<rparr>, h @ ys)" by blast
    with False that show ?thesis by simp
  qed
  have "\<forall>u \<in> set ts. readSchema (h @ ys) (inputSchema u) \<noteq> None"
    using Cons.prems readSchema_append by fastforce
  from Cons.IH [OF this] obtain ts' zs where
    2: "enhanceAll (h @ ys) R urls ts = Some (ts', (h @ ys) @ zs)" "map name ts' = map name ts"
    by blast
  have "enhanceAll h R urls (t # ts) = Some (t' # ts', h @ (ys @ zs))"
    using 1 2 by simp
  then show ?case using 1(2) 2(2) by auto
qed

text \<open>
  For an empty source tool list the refresh empties the merged list and leaves the
  classification as it was.
\<close>

lemma refreshTools_empty:
  "getToolDefinitions mgr = [] \<Longrightarrow>
   refreshTools mgr h router = Some (router\<lparr>mergedTools := []\<rparr>, h)"
  by (simp add: refreshTools_def)

text \<open>
  For a source tool list that is not empty, and whose schemas are readable, the refresh
  replaces the classification: the routable names are those of the tools whose schema
  declares \<open>cluster\<close>, the fan-out names those of the others, and the merged tools carry
  the names of the source tools in their order.
\<close>

lemma refreshTools_nonempty:
  assumes "getToolDefinitions mgr \<noteq> []"
    and "\<forall>t \<in> set (getToolDefinitions mgr). readSchema h (inputSchema t) \<noteq> None"
  shows "\<exists>merged ys. refreshTools mgr h router
     = Some (\<lparr>mergedTools = merged,
              routableTools = {name t | t. t \<in> set (getToolDefinitions mgr) \<and> declaresCluster h t},
              fanOutTools = {name t | t. t \<in> set (getToolDefinitions mgr) \<and> \<not> declaresCluster h t}\<rparr>,
             h @ ys)
     \<and> map name merged = map name (getToolDefinitions mgr)"
proof -
  let ?R = "{name t | t. t \<in> set (getToolDefinitions mgr) \<and> declaresCluster h t}"
  let ?F = "{name t | t. t \<in> set (getToolDefinitions mgr) \<and> \<not> declaresCluster h t}"
  have c: "classify h (getToolDefinitions mgr) ({}, {}) = Some (?R, ?F)"
    using classify_result [OF assms(2), of "{}" "{}"] by simp
  from enhanceAll_result [OF assms(2), of ?R "getClusterUrls mgr"] obtain merged ys where
    e: "enhanceAll h ?R (getClusterUrls mgr) (getToolDefinitions mgr) = Some (merged, h @ ys)"
      "map name merged = map name (getToolDefinitions mgr)" by blast
  show ?thesis using assms(1) c e by (simp add: refreshTools_def Let_def)
qed

text \<open>
  When the source tools have distinct names, no name is in both classes.
\<close>

lemma classes_disjoint:
  assumes "distinct (map name ts)"
  shows "{name t | t. t \<in> set ts \<and> declaresCluster h t}
         \<inter> {name t | t. t \<in> set ts \<and> \<not> declaresCluster h t} = {}"
proof -
  have "t = u" if "t \<in> set ts" "u \<in> set ts" "name t = name u" for t u
    using assms that by (meson distinct_map inj_onD)
  then show ?thesis by auto
qed

text \<open>
  Within a refresh the store only grows, so what is read of a rewritten tool right after
  its rewriting is what is read of it in the store that the refresh returns.
\<close>

lemma rewrite_extends:
  assumes "readSchema h (inputSchema t) = Some s"
    and "(if name t \<in> R then enhanceRoutableTool h t urls else enhanceFanOutTool h t urls)
           = Some (t', h1)"
  shows "\<exists>ys. h1 = h @ ys"
proof (cases "name t \<in> R")
  case True
  with assms(2) enhanceRoutableTool_result [OF assms(1), of urls] show ?thesis by auto
next
  case False
  with assms(2) enhanceFanOutTool_result [OF assms(1), of urls] show ?thesis by auto
qed

lemma enhanceAll_extends:
  assumes "\<forall>t \<in> set ts. readSchema h (inputSchema t) \<noteq> None"
    and "enhanceAll h R urls ts = Some (ts', h')"
  shows "\<exists>ys. h' = h @ ys"
  using enhanceAll_result [OF assms(1), of R urls] assms(2) by auto

lemma enhanceAll_routable_nth:
  assumes "\<forall>t \<in> set ts. readSchema h (inputSchema t) \<noteq> None"
    and "enhanceAll h R urls ts = Some (ts', h')"
    and "i < length ts" and "name (ts ! i) \<in> R"
    and "readSchema h (inputSchema (ts ! i)) = Some s"
  shows "name (ts' ! i) = name (ts ! i)
     \<and> description (ts' ! i) = routedDescription (description (ts ! i))
     \<and> readSchema h' (inputSchema (ts' ! i))
         = Some \<lparr>properties = Some (AList.update ''cluster''
                                     (clusterPropOf urls (propsOf s)) (propsOf s)),
                 required = Some (withCluster (requiredOf s)),
                 additionalProperties = additionalProperties s\<rparr>
     \<and> readSchema h' (inputSchema (ts ! i)) = Some s"
  using assms
proof (induction ts arbitrary: h ts' i)
  case Nil
  then show ?case by simp
next
  case (Cons t ts)
  from Cons.prems(1) obtain st where st: "readSchema h (inputSchema t) = Some st" by auto
  from Cons.prems(2) obtain t1 h1 ts1 where
    r: "(if name t \<in> R then enhanceRoutableTool h t urls else enhanceFanOutTool h t urls)
           = Some (t1, h1)"
    and rest: "enhanceAll h1 R urls ts = Some (ts1, h')" and ts': "ts' = t1 # ts1"
    by (auto split: option.splits)
  from rewrite_extends [OF st r] obtain ys where h1: "h1 = h @ ys" by blast
  have wf1: "\<forall>u \<in> set ts. readSchema h1 (inputSchema u) \<noteq> None"
    using Cons.prems(1) readSchema_append unfolding h1 by fastforce
  from enhanceAll_extends [OF wf1 rest] obtain zs where h': "h' = h1 @ zs" by blast
  show ?case
  proof (cases i)
    case 0
    with Cons.prems have R: "name t \<in> R" and s: "readSchema h (inputSchema t) = Some s"
      by simp_all
    from enhanceRoutableTool_result [OF s, of urls] r R obtain schema where
      e: "t1 = \<lparr>name = name t, description = routedDescription (description t),
                 inputSchema = schema\<rparr>"
        "readSchema h1 schema
              = Some \<lparr>properties = Some (AList.update ''cluster''
                                          (clusterPropOf urls (propsOf s)) (propsOf s)),
                      required = Some (withCluster (requiredOf s)),
                      additionalProperties = additionalProperties s\<rparr>"
      by auto
    have "readSchema h' (inputSchema t) = Some s"
      unfolding h' h1 using s by (simp add: readSchema_append)
    then show ?thesis using 0 e ts' readSchema_append [OF e(2), of zs] h' by simp
  next
    case (Suc j)
    with Cons.prems have j: "j < length ts" "name (ts ! j) \<in> R"
      "readSchema h (inputSchema (ts ! j)) = Some s" by simp_all
    have s1: "readSchema h1 (inputSchema (ts ! j)) = Some s"
      unfolding h1 using j(3) by (rule readSchema_append)
    from Cons.IH [OF wf1 rest j(1) j(2) s1] show ?thesis using Suc ts' by simp
  qed
qed

text \<open>
  The tool that a refresh produces for a source tool whose name is classified routable:
  its name, its description and its schema, read in the store that the refresh returns,
  and the source schema, which reads as before.
\<close>

lemma refreshTools_routable_tool:
  assumes "\<forall>t \<in> set (getToolDefinitions mgr). readSchema h (inputSchema t) \<noteq> None"
    and "refreshTools mgr h router = Some (router', h')"
    and "i < length (getToolDefinitions mgr)"
    and "name (getToolDefinitions mgr ! i) \<in> routableTools router'"
    and "readSchema h (inputSchema (getToolDefinitions mgr ! i)) = Some s"
  shows "name (mergedTools router' ! i) = name (getToolDefinitions mgr ! i)
     \<and> description (mergedTools router' ! i)
         = routedDescription (description (getToolDefinitions mgr ! i))
     \<and> readSchema h' (inputSchema (mergedTools router' ! i))
         = Some \<lparr>properties = Some (AList.update ''cluster''
                     (clusterPropOf (getClusterUrls mgr) (propsOf s)) (propsOf s)),
                 required = Some (withCluster (requiredOf s)),
                 additionalProperties = additionalProperties s\<rparr>
     \<and> readSchema h' (inputSchema (getToolDefinitions mgr ! i)) = Some s"
proof -
  from assms(3) have ne: "getToolDefinitions mgr \<noteq> []" by auto
  with assms(2) obtain routable fanOut where
    e: "enhanceAll h routable (getClusterUrls mgr) (getToolDefinitions mgr)
          = Some (mergedTools router', h')"
      "routableTools router' = routable"
    by (auto simp: refreshTools_def Let_def split: option.splits)
  from enhanceAll_routable_nth [OF assms(1) e(1) assms(3) _ assms(5)] assms(4) e(2)
  show ?thesis by simp
qed

subsection \<open>The rewritten routable tool\<close>

lemma routableClusterDescription_lists:
  "u \<in> set urls \<Longrightarrow> includes_str (routableClusterDescription urls) u"
  unfolding routableClusterDescription_def
  using includes_str_append_left [OF join_includes, of u urls
      "''The Kusto cluster URL to query. Must be one of the available clusters: ''" "'', ''"]
  by simp

lemma clusterPropOf_fields:
  "prop_type (clusterPropOf urls ps) = Some ''string''"
  "prop_enum (clusterPropOf urls ps) = Some urls"
  "prop_description (clusterPropOf urls ps) = Some (routableClusterDescription urls)"
  "prop_rest (clusterPropOf urls ps)
     = (case map_of ps ''cluster'' of None \<Rightarrow> [] | Some e \<Rightarrow> prop_rest e)"
  by (simp_all add: clusterPropOf_def split: option.splits)

lemma set_withCluster: "set (withCluster rs) = insert ''cluster'' (set rs)"
  by (auto simp: withCluster_def)

text \<open>
  C3, amended: for every tool whose input schema is readable in the store and every list
  of endpoint URLs, the rewriting of a routable tool returns a tool of the same name
  whose schema has a \<open>cluster\<close> property of type \<open>string\<close>, with the whole list as its
  \<open>enum\<close> and a description that contains every URL of the list; every other property is
  as in the source schema; \<open>required\<close> holds \<open>cluster\<close> and what it held before. The
  rewriting works on a deep copy: every object of the old store is unchanged, so the
  source schema reads as before, and the new schema, its properties object and its
  required array are new objects. When the tool has a non-empty description, the phrase
  " (Routed to the specified cluster)" is appended to it; when it has none, or an empty
  one, the description is "Kusto tool routed to the specified cluster".
\<close>

theorem C3_enhanceRoutableTool:
  "readSchema h (inputSchema tool) = Some s \<longrightarrow>
   (\<exists>tool' h' ps rs cp p' r'.
      enhanceRoutableTool h tool clusterUrls = Some (tool', h')
    \<and> readSchema h' (inputSchema tool')
        = Some \<lparr>properties = Some ps, required = Some rs,
                additionalProperties = additionalProperties s\<rparr>
    \<and> map_of ps ''cluster'' = Some cp
    \<and> prop_type cp = Some ''string''
    \<and> prop_enum cp = Some clusterUrls
    \<and> prop_description cp = Some (routableClusterDescription clusterUrls)
    \<and> (\<forall>u \<in> set clusterUrls. includes_str (routableClusterDescription clusterUrls) u)
    \<and> (\<forall>k. k \<noteq> ''cluster'' \<longrightarrow> map_of ps k = map_of (propsOf s) k)
    \<and> ''cluster'' \<in> set rs
    \<and> set rs = insert ''cluster'' (set (requiredOf s))
    \<and> take (length h) h' = h
    \<and> readSchema h' (inputSchema tool) = Some s
    \<and> length h \<le> inputSchema tool'
    \<and> lookup h' (inputSchema tool') = Some (SchemaObj (Some p') (Some r') (additionalProperties s))
    \<and> length h \<le> p' \<and> length h \<le> r'
    \<and> name tool' = name tool
    \<and> (\<forall>d. description tool = Some d \<and> d \<noteq> [] \<longrightarrow>
          description tool' = Some (d @ '' (Routed to the specified cluster)''))
    \<and> (description tool = None \<or> description tool = Some [] \<longrightarrow>
          description tool' = Some ''Kusto tool routed to the specified cluster''))"
proof
  assume s: "readSchema h (inputSchema tool) = Some s"
  from enhanceRoutableTool_result [OF s, of clusterUrls] obtain schema ys p' r' where
    e: "enhanceRoutableTool h tool clusterUrls
            = Some (\<lparr>name = name tool, description = routedDescription (description tool),
                     inputSchema = schema\<rparr>, h @ ys)"
      "length h \<le> schema"
      "lookup (h @ ys) schema = Some (SchemaObj (Some p') (Some r') (additionalProperties s))"
      "length h \<le> p'" "length h \<le> r'"
      "readSchema (h @ ys) schema
              = Some \<lparr>properties = Some (AList.update ''cluster''
                                          (clusterPropOf clusterUrls (propsOf s)) (propsOf s)),
                      required = Some (withCluster (requiredOf s)),
                      additionalProperties = additionalProperties s\<rparr>"
    by blast
  let ?tool' = "\<lparr>name = name tool, description = routedDescription (description tool),
                     inputSchema = schema\<rparr>"
  let ?ps = "AList.update ''cluster'' (clusterPropOf clusterUrls (propsOf s)) (propsOf s)"
  let ?cp = "clusterPropOf clusterUrls (propsOf s)"
  have 1: "map_of ?ps ''cluster'' = Some ?cp" by (simp add: update_conv')
  have 2: "\<forall>k. k \<noteq> ''cluster'' \<longrightarrow> map_of ?ps k = map_of (propsOf s) k"
    by (simp add: update_conv')
  have 3: "\<forall>d. description tool = Some d \<and> d \<noteq> [] \<longrightarrow>
          description ?tool' = Some (d @ '' (Routed to the specified cluster)'')"
    by (simp add: routedDescription_def)
  have 4: "description tool = None \<or> description tool = Some [] \<longrightarrow>
          description ?tool' = Some ''Kusto tool routed to the specified cluster''"
    by (auto simp: routedDescription_def)
  have 5: "readSchema (h @ ys) (inputSchema tool) = Some s"
    using s by (rule readSchema_append)
  have 6: "\<forall>u \<in> set clusterUrls. includes_str (routableClusterDescription clusterUrls) u"
    by (simp add: routableClusterDescription_lists)
  show "\<exists>tool' h' ps rs cp p' r'.
      enhanceRoutableTool h tool clusterUrls = Some (tool', h')
    \<and> readSchema h' (inputSchema tool')
        = Some \<lparr>properties = Some ps, required = Some rs,
                additionalProperties = additionalProperties s\<rparr>
    \<and> map_of ps ''cluster'' = Some cp
    \<and> prop_type cp = Some ''string''
    \<and> prop_enum cp = Some clusterUrls
    \<and> prop_description cp = Some (routableClusterDescription clusterUrls)
    \<and> (\<forall>u \<in> set clusterUrls. includes_str (routableClusterDescription clusterUrls) u)
    \<and> (\<forall>k. k \<noteq> ''cluster'' \<longrightarrow> map_of ps k = map_of (propsOf s) k)
    \<and> ''cluster'' \<in> set rs
    \<and> set rs = insert ''cluster'' (set (requiredOf s))
    \<and> take (length h) h' = h
    \<and> readSchema h' (inputSchema tool) = Some s
    \<and> length h \<le> inputSchema tool'
    \<and> lookup h' (inputSchema tool') = Some (SchemaObj (Some p') (Some r') (additionalProperties s))
    \<and> length h \<le> p' \<and> length h \<le> r'
    \<and> name tool' = name tool
    \<and> (\<forall>d. description tool = Some d \<and> d \<noteq> [] \<longrightarrow>
          description tool' = Some (d @ '' (Routed to the specified cluster)''))
    \<and> (description tool = None \<or> description tool = Some [] \<longrightarrow>
          description tool' = Some ''Kusto tool routed to the specified cluster'')"
    apply (rule exI [of _ ?tool'])
    apply (rule exI [of _ "h @ ys"])
    apply (rule exI [of _ ?ps])
    apply (rule exI [of _ "withCluster (requiredOf s)"])
    apply (rule exI [of _ ?cp])
    apply (rule exI [of _ p'])
    apply (rule exI [of _ r'])
    using e 1 2 3 4 5 6
    apply (simp add: clusterPropOf_fields set_withCluster)
    done
qed

text \<open>
  C3, as stated (the phrase is appended to the description of every routable tool), fails
  for a tool without description: in the sample deployment \<open>kusto_sample\<close> is classified
  routable, and the description of the tool that the refresh produces for it does not
  contain "(Routed to the specified cluster)".
\<close>

theorem C3_description_counterexample:
  "map_option (routableTools \<circ> fst) firstRefresh = Some {''kusto_query'', ''kusto_sample''}
   \<and> map_option (map name \<circ> mergedTools \<circ> fst) firstRefresh
       = Some [''kusto_query'', ''kusto_cluster_list'', ''kusto_sample'']
   \<and> map_option (map description \<circ> mergedTools \<circ> fst) firstRefresh
       = Some [Some (''Execute a KQL query against an Azure Data Explorer cluster''
                       @ '' (Routed to the specified cluster)''),
               Some (''List available Kusto clusters''
                       @ '' (Queries all available clusters unless a specific cluster is specified)''),
               Some ''Kusto tool routed to the specified cluster'']
   \<and> \<not> includes_str ''Kusto tool routed to the specified cluster''
          ''(Routed to the specified cluster)''"
  by code_simp

text \<open>
  The amended C3 on the tool \<open>kusto_query\<close> of the sample store and two endpoint
  URLs.
\<close>

theorem C3_enhanceRoutableTool_witness:
  "readSchema exampleStore (inputSchema exampleQueryTool)
     = Some \<lparr>properties = Some
               [(''cluster'', \<lparr>prop_type = Some ''string'',
                               prop_description = Some ''Kusto cluster URL'',
                               prop_enum = None, prop_rest = []\<rparr>),
                (''database'', \<lparr>prop_type = Some ''string'',
                                prop_description = Some ''Database name'',
                                prop_enum = None, prop_rest = []\<rparr>),
                (''query'', \<lparr>prop_type = Some ''string'', prop_description = Some ''KQL query'',
                             prop_enum = None, prop_rest = []\<rparr>)],
             required = Some [''cluster'', ''database'', ''query''],
             additionalProperties = None\<rparr>
   \<and> (\<exists>tool' h'. enhanceRoutableTool exampleStore exampleQueryTool
                    [''https://c1.example'', ''https://c2.example''] = Some (tool', h')
        \<and> take (length exampleStore) h' = exampleStore
        \<and> length exampleStore \<le> inputSchema tool'
        \<and> description tool'
            = Some (''Execute a KQL query against an Azure Data Explorer cluster''
                      @ '' (Routed to the specified cluster)'')
        \<and> (\<exists>ps rs cp. readSchema h' (inputSchema tool')
               = Some \<lparr>properties = Some ps, required = Some rs, additionalProperties = None\<rparr>
             \<and> map_of ps ''cluster'' = Some cp
             \<and> prop_enum cp = Some [''https://c1.example'', ''https://c2.example'']
             \<and> ''cluster'' \<in> set rs))"
proof -
  let ?s = "\<lparr>properties = Some
               [(''cluster'', \<lparr>prop_type = Some ''string'',
                               prop_description = Some ''Kusto cluster URL'',
                               prop_enum = None, prop_rest = []\<rparr>),
                (''database'', \<lparr>prop_type = Some ''string'',
                                prop_description = Some ''Database name'',
                                prop_enum = None, prop_rest = []\<rparr>),
                (''query'', \<lparr>prop_type = Some ''string'', prop_description = Some ''KQL query'',
                             prop_enum = None, prop_rest = []\<rparr>)],
             required = Some [''cluster'', ''database'', ''query''],
             additionalProperties = None\<rparr>"
  have h: "readSchema exampleStore (inputSchema exampleQueryTool) = Some ?s"
    by code_simp
  have d: "description exampleQueryTool
     = Some ''Execute a KQL query against an Azure Data Explorer cluster''"
    by (simp add: exampleQueryTool_def)
  from C3_enhanceRoutableTool [of exampleStore exampleQueryTool ?s
      "[''https://c1.example'', ''https://c2.example'']"] h d
  show ?thesis by fastforce
qed

text \<open>
  C1 fails where the source tool list is empty. In the sample deployment a first refresh
  classifies \<open>kusto_query\<close> and \<open>kusto_sample\<close> as routable and \<open>kusto_cluster_list\<close>
  as fan-out. Once both child processes have exited, no endpoint is connected and the
  source tool list is empty; a second refresh empties the merged list and returns
  before it clears the two sets, which still hold the three names.
\<close>

theorem C1_stale_classification:
  "map_option (routableTools \<circ> fst) firstRefresh = Some {''kusto_query'', ''kusto_sample''}
   \<and> map_option (fanOutTools \<circ> fst) firstRefresh = Some {''kusto_cluster_list''}
   \<and> getToolDefinitions exampleManagerDown = []
   \<and> map_option (mergedTools \<circ> fst) secondRefresh = Some []
   \<and> map_option (routableTools \<circ> fst) secondRefresh = Some {''kusto_query'', ''kusto_sample''}
   \<and> map_option (fanOutTools \<circ> fst) secondRefresh = Some {''kusto_cluster_list''}"
  by code_simp

section \<open>Reconnection backoff\<close>

lemma scheduleReconnect_fresh:
  "reconnectTimers hm url = None \<Longrightarrow>
   reconnectTimers (scheduleReconnect hm url) url
     = Some \<lparr>timer_delayMs = (case reconnectBackoffs hm url of None \<Rightarrow> 1 | Some b \<Rightarrow> b) * 1000,
             timer_currentBackoff = (case reconnectBackoffs hm url of None \<Rightarrow> 1 | Some b \<Rightarrow> b)\<rparr>
   \<and> reconnectBackoffs (scheduleReconnect hm url) = reconnectBackoffs hm"
  by (simp add: scheduleReconnect_def Let_def)

lemma scheduleReconnect_pending:
  "reconnectTimers hm url \<noteq> None \<Longrightarrow> scheduleReconnect hm url = hm"
  by (simp add: scheduleReconnect_def)

text \<open>
  \<open>reconnect\<close> ends a child process, and so notifies the exit callback, exactly when it
  finds a record that is not already reconnecting and still holds its process.
\<close>

lemma reconnect_exited:
  "snd (snd (reconnect outcome now mgr url))
     = (case map_of (downstreams mgr) (normalizeClusterUrl url) of
          None \<Rightarrow> []
        | Some state \<Rightarrow>
            if \<not> reconnecting state \<and> process state
            then [normalizeClusterUrl (clusterUrl (mapping state))] else [])"
  by (auto simp: reconnect_def cleanupDownstream_def Let_def
           split: option.splits sum.splits prod.splits)

lemma timer_failed_no_exit:
  assumes "reconnectTimers hm url = Some timer" "running hm"
    "\<not> fst (snd (reconnect outcome now mgr url))"
    "snd (snd (reconnect outcome now mgr url)) = []"
  shows "reconnectBackoffs (snd (reconnectTimerFired outcome now (mgr, hm) url)) url
           = Some (min (timer_currentBackoff timer * 2) (maxReconnectBackoffSeconds (hm_config hm)))"
    and "reconnectTimers (snd (reconnectTimerFired outcome now (mgr, hm) url)) url
           = Some \<lparr>timer_delayMs = min (timer_currentBackoff timer * 2)
                                       (maxReconnectBackoffSeconds (hm_config hm)) * 1000,
                   timer_currentBackoff = min (timer_currentBackoff timer * 2)
                                       (maxReconnectBackoffSeconds (hm_config hm))\<rparr>"
  using assms
  by (simp_all add: reconnectTimerFired_def Let_def scheduleReconnect_def case_prod_unfold)

lemma timer_succeeded_no_exit:
  assumes "reconnectTimers hm url = Some timer" "running hm"
    "fst (snd (reconnect outcome now mgr url))"
    "snd (snd (reconnect outcome now mgr url)) = []"
  shows "reconnectBackoffs (snd (reconnectTimerFired outcome now (mgr, hm) url)) url = None"
    and "reconnectTimers (snd (reconnectTimerFired outcome now (mgr, hm) url)) url = None"
  using assms
  by (simp_all add: reconnectTimerFired_def Let_def case_prod_unfold)

lemma timer_failed_exit:
  assumes "reconnectTimers hm url = Some timer" "running hm"
    "\<not> fst (snd (reconnect outcome now mgr url))"
    "snd (snd (reconnect outcome now mgr url)) = [url]"
  shows "reconnectBackoffs (snd (reconnectTimerFired outcome now (mgr, hm) url)) url
           = Some (min (timer_currentBackoff timer * 2) (maxReconnectBackoffSeconds (hm_config hm)))"
    and "reconnectTimers (snd (reconnectTimerFired outcome now (mgr, hm) url)) url
           = Some \<lparr>timer_delayMs =
                     (case reconnectBackoffs hm url of None \<Rightarrow> 1 | Some b \<Rightarrow> b) * 1000,
                   timer_currentBackoff =
                     (case reconnectBackoffs hm url of None \<Rightarrow> 1 | Some b \<Rightarrow> b)\<rparr>"
  using assms
  by (simp_all add: reconnectTimerFired_def Let_def scheduleReconnect_def onDownstreamExit_def
                    case_prod_unfold)

lemma timer_succeeded_exit:
  assumes "reconnectTimers hm url = Some timer" "running hm"
    "fst (snd (reconnect outcome now mgr url))"
    "snd (snd (reconnect outcome now mgr url)) = [url]"
  shows "reconnectBackoffs (snd (reconnectTimerFired outcome now (mgr, hm) url)) url = None"
    and "reconnectTimers (snd (reconnectTimerFired outcome now (mgr, hm) url)) url
           = Some \<lparr>timer_delayMs =
                     (case reconnectBackoffs hm url of None \<Rightarrow> 1 | Some b \<Rightarrow> b) * 1000,
                   timer_currentBackoff =
                     (case reconnectBackoffs hm url of None \<Rightarrow> 1 | Some b \<Rightarrow> b)\<rparr>"
  using assms
  by (simp_all add: reconnectTimerFired_def Let_def scheduleReconnect_def onDownstreamExit_def
                    case_prod_unfold)

lemma checkOne_ping_ok:
  assumes "conn_status connection = Connected"
    "fst (snd (ping now mgr (conn_clusterUrl connection)))"
  shows "reconnectBackoffs (snd (checkOne now connection (mgr, hm))) (conn_clusterUrl connection)
           = None"
  using assms by (simp add: checkOne_def case_prod_unfold)

text \<open>
  When the reconnection ends no child process (the endpoint was never connected, or
  its child has exited on its own), the backoff doubles from one attempt to the next: scheduling
  a reconnection for an endpoint that has neither a pending timer nor a stored backoff
  arms a timer of 1000 ms; when the timer fires while the loop runs and the reconnection
  fails, the stored backoff becomes the smaller of twice the backoff the timer was armed
  with and \<open>maxReconnectBackoffSeconds\<close>, and the next timer is armed with that many
  seconds; when the reconnection succeeds, the stored backoff is cleared and no timer is
  pending, so that the next scheduling arms a timer of 1000 ms again. A successful ping
  in the periodic check clears the stored backoff of its endpoint.
\<close>

lemma backoff_without_exit:
  "(reconnectTimers hm url = None \<and> reconnectBackoffs hm url = None \<longrightarrow>
      reconnectTimers (scheduleReconnect hm url) url
        = Some \<lparr>timer_delayMs = 1000, timer_currentBackoff = 1\<rparr>)
   \<and> (\<forall>timer. reconnectTimers hm url = Some timer \<and> running hm
         \<and> snd (snd (reconnect outcome now mgr url)) = []
         \<and> \<not> fst (snd (reconnect outcome now mgr url)) \<longrightarrow>
        reconnectBackoffs (snd (reconnectTimerFired outcome now (mgr, hm) url)) url
          = Some (min (timer_currentBackoff timer * 2)
                      (maxReconnectBackoffSeconds (hm_config hm)))
        \<and> reconnectTimers (snd (reconnectTimerFired outcome now (mgr, hm) url)) url
          = Some \<lparr>timer_delayMs = min (timer_currentBackoff timer * 2)
                                      (maxReconnectBackoffSeconds (hm_config hm)) * 1000,
                  timer_currentBackoff = min (timer_currentBackoff timer * 2)
                                      (maxReconnectBackoffSeconds (hm_config hm))\<rparr>)
   \<and> (\<forall>timer. reconnectTimers hm url = Some timer \<and> running hm
         \<and> snd (snd (reconnect outcome now mgr url)) = []
         \<and> fst (snd (reconnect outcome now mgr url)) \<longrightarrow>
        reconnectBackoffs (snd (reconnectTimerFired outcome now (mgr, hm) url)) url = None
        \<and> reconnectTimers (snd (reconnectTimerFired outcome now (mgr, hm) url)) url = None
        \<and> reconnectTimers (scheduleReconnect
              (snd (reconnectTimerFired outcome now (mgr, hm) url)) url) url
          = Some \<lparr>timer_delayMs = 1000, timer_currentBackoff = 1\<rparr>)
   \<and> (\<forall>connection. conn_status connection = Connected
         \<and> fst (snd (ping now mgr (conn_clusterUrl connection))) \<longrightarrow>
        reconnectBackoffs (snd (checkOne now connection (mgr, hm))) (conn_clusterUrl connection)
          = None)"
proof (intro conjI allI impI)
  assume "reconnectTimers hm url = None \<and> reconnectBackoffs hm url = None"
  then show "reconnectTimers (scheduleReconnect hm url) url
        = Some \<lparr>timer_delayMs = 1000, timer_currentBackoff = 1\<rparr>"
    using scheduleReconnect_fresh [of hm url] by simp
next
  fix timer
  assume a: "reconnectTimers hm url = Some timer \<and> running hm
         \<and> snd (snd (reconnect outcome now mgr url)) = []
         \<and> \<not> fst (snd (reconnect outcome now mgr url))"
  then show "reconnectBackoffs (snd (reconnectTimerFired outcome now (mgr, hm) url)) url
          = Some (min (timer_currentBackoff timer * 2)
                      (maxReconnectBackoffSeconds (hm_config hm)))"
    using timer_failed_no_exit(1) by blast
  from a show "reconnectTimers (snd (reconnectTimerFired outcome now (mgr, hm) url)) url
          = Some \<lparr>timer_delayMs = min (timer_currentBackoff timer * 2)
                                      (maxReconnectBackoffSeconds (hm_config hm)) * 1000,
                  timer_currentBackoff = min (timer_currentBackoff timer * 2)
                                      (maxReconnectBackoffSeconds (hm_config hm))\<rparr>"
    using timer_failed_no_exit(2) by blast
next
  fix timer
  assume a: "reconnectTimers hm url = Some timer \<and> running hm
         \<and> snd (snd (reconnect outcome now mgr url)) = []
         \<and> fst (snd (reconnect outcome now mgr url))"
  let ?hm' = "snd (reconnectTimerFired outcome now (mgr, hm) url)"
  from a have b: "reconnectBackoffs ?hm' url = None" and t: "reconnectTimers ?hm' url = None"
    using timer_succeeded_no_exit by blast+
  show "reconnectBackoffs ?hm' url = None" by (rule b)
  show "reconnectTimers ?hm' url = None" by (rule t)
  show "reconnectTimers (scheduleReconnect ?hm' url) url
          = Some \<lparr>timer_delayMs = 1000, timer_currentBackoff = 1\<rparr>"
    using scheduleReconnect_fresh [OF t] b by simp
next
  fix connection :: DownstreamConnection
  assume "conn_status connection = Connected
         \<and> fst (snd (ping now mgr (conn_clusterUrl connection)))"
  then show "reconnectBackoffs (snd (checkOne now connection (mgr, hm)))
               (conn_clusterUrl connection) = None"
    using checkOne_ping_ok by blast
qed

text \<open>
  In the sample deployment the endpoint \<open>https://c.example\<close> was never connected:
  after the failed attempt of its first timer the stored backoff is 2 and the next timer
  is armed with 2000 ms.
\<close>

lemma backoff_without_exit_example:
  "snd (snd (reconnect (ConnectRejected ''spawn failed'') ''t2'' (fst exampleAfterTick)
              ''https://c.example'')) = []
   \<and> reconnectTimers (snd exampleAfterTick) ''https://c.example''
       = Some \<lparr>timer_delayMs = 1000, timer_currentBackoff = 1\<rparr>
   \<and> reconnectBackoffs (snd (reconnectTimerFired (ConnectRejected ''spawn failed'') ''t2''
        exampleAfterTick ''https://c.example'')) ''https://c.example'' = Some 2
   \<and> reconnectTimers (snd (reconnectTimerFired (ConnectRejected ''spawn failed'') ''t2''
        exampleAfterTick ''https://c.example'')) ''https://c.example''
       = Some \<lparr>timer_delayMs = 2000, timer_currentBackoff = 2\<rparr>"
  by code_simp

text \<open>
  When the reconnection ends the child process of the endpoint of the timer, the exit
  listener has armed the next timer before the attempt settles, from the backoff stored
  before the callback ran: the backoff that a failed attempt stores is not used by that
  timer, and after an attempt that succeeds the timer is still pending.
\<close>

lemma backoff_with_exit:
  assumes "reconnectTimers hm url = Some timer" "running hm"
    "snd (snd (reconnect outcome now mgr url)) = [url]"
  shows "reconnectTimers (snd (reconnectTimerFired outcome now (mgr, hm) url)) url
           = Some \<lparr>timer_delayMs =
                     (case reconnectBackoffs hm url of None \<Rightarrow> 1 | Some b \<Rightarrow> b) * 1000,
                   timer_currentBackoff =
                     (case reconnectBackoffs hm url of None \<Rightarrow> 1 | Some b \<Rightarrow> b)\<rparr>"
    and "reconnectBackoffs (snd (reconnectTimerFired outcome now (mgr, hm) url)) url
           = (if fst (snd (reconnect outcome now mgr url)) then None
              else Some (min (timer_currentBackoff timer * 2)
                             (maxReconnectBackoffSeconds (hm_config hm))))"
  using assms timer_failed_exit [of hm url timer outcome now mgr]
    timer_succeeded_exit [of hm url timer outcome now mgr]
  by auto

text \<open>
  C9 fails for an endpoint whose child process is alive when its reconnection timer
  fires. In the sample deployment the ping of \<open>https://b.example\<close> times out during a
  tick of the health loop: the endpoint is \<open>Failed\<close>, still holds its process, has no
  stored backoff, and a timer of 1000 ms is armed. When this timer fires and the
  reconnection fails, the stored backoff becomes 2, but the pending timer is the one that
  the exit listener armed during the cleanup, with 1000 ms: the new backoff is not used
  for the next attempt. When the reconnection succeeds instead, the endpoint is
  \<open>Connected\<close> and the stored backoff is cleared, yet a timer of 1000 ms is pending.
\<close>

theorem C9_timer_rearmed_by_exit:
  "map_option status (map_of (downstreams (fst exampleAfterTick)) ''https://b.example'')
     = Some Failed
   \<and> map_option process (map_of (downstreams (fst exampleAfterTick)) ''https://b.example'')
     = Some True
   \<and> reconnectBackoffs (snd exampleAfterTick) ''https://b.example'' = None
   \<and> reconnectTimers (snd exampleAfterTick) ''https://b.example''
     = Some \<lparr>timer_delayMs = 1000, timer_currentBackoff = 1\<rparr>
   \<and> map_option status (map_of (downstreams (fst exampleAfterFailure)) ''https://b.example'')
     = Some Failed
   \<and> reconnectBackoffs (snd exampleAfterFailure) ''https://b.example'' = Some 2
   \<and> reconnectTimers (snd exampleAfterFailure) ''https://b.example''
     = Some \<lparr>timer_delayMs = 1000, timer_currentBackoff = 1\<rparr>
   \<and> map_option status (map_of (downstreams (fst exampleAfterSuccess)) ''https://b.example'')
     = Some Connected
   \<and> reconnectBackoffs (snd exampleAfterSuccess) ''https://b.example'' = None
   \<and> reconnectTimers (snd exampleAfterSuccess) ''https://b.example''
     = Some \<lparr>timer_delayMs = 1000, timer_currentBackoff = 1\<rparr>"
  by code_simp

end
